theory Spec2Isabelle
  imports Main "HOL-Library.Char_ord" "HOL-Library.List_Lexorder" "HOL-Library.Product_Lexorder"
begin

section \<open>Data frames\<close>

text \<open>
  The program keeps its data in pandas data frames. A frame is modelled as a header, the
  column names with the dtype pandas holds for each column, and the rows as tuples of
  cells in the order of the header. A cell is missing (\<open>NaN\<close>, pandas' NaN, None and
  NaT), a string, a number or a timestamp.

  Numbers are the integer counts of the source files (reported cases, admissions,
  deceased); pandas holds them as int64, or as float64 once a missing value stands in the
  column, and both dtypes are \<open>numeric\<close> here. Sums are taken over the integers: the
  model follows pandas as long as the totals stay in the range where int64 and float64
  are exact. A timestamp is the number of days since 1970-01-01: the publication dates
  of the source files carry no time of day.
\<close>

datatype cell = NaN | Str string | Num int | Datetime int

datatype dtype = object | numeric | datetime64

record dataframe =
  schema :: "(string \<times> dtype) list"
  rows :: "cell list list"

datatype error =
    AttributeError string
  | KeyError string
  | ValueError string
  | TypeError string

definition columns :: "dataframe \<Rightarrow> string list" where
  "columns df = map fst (schema df)"

primrec index_of :: "'a \<Rightarrow> 'a list \<Rightarrow> nat" where
  "index_of a [] = 0"
| "index_of a (x # xs) = (if x = a then 0 else Suc (index_of a xs))"

definition col :: "dataframe \<Rightarrow> string \<Rightarrow> nat" where
  "col df c = index_of c (columns df)"

definition dtype_of :: "dataframe \<Rightarrow> string \<Rightarrow> dtype" where
  "dtype_of df c = snd (schema df ! col df c)"

text \<open>
  \<open>df[c]\<close>, the cells of a column from the first row to the last. A frame is
  rectangular: every row has a cell for every column.
\<close>

definition series :: "dataframe \<Rightarrow> string \<Rightarrow> cell list" where
  "series df c = map (\<lambda>r. r ! col df c) (rows df)"

definition rectangular :: "dataframe \<Rightarrow> bool" where
  "rectangular df \<longleftrightarrow> list_all (\<lambda>r. length r = length (schema df)) (rows df)"

subsection \<open>The order of group keys\<close>

text \<open>
  pandas sorts the groups of a \<open>groupby\<close> by their keys. Within one column the keys are
  of one kind: strings in the order of their code points, numbers and timestamps in
  their numeric order. The rank below extends this to one linear order on all cells.
\<close>

fun cell_rank :: "cell \<Rightarrow> nat \<times> int \<times> string" where
  "cell_rank NaN = (0, 0, [])"
| "cell_rank (Num n) = (1, n, [])"
| "cell_rank (Datetime d) = (2, d, [])"
| "cell_rank (Str s) = (3, 0, s)"

instantiation cell :: linorder
begin

definition less_eq_cell :: "cell \<Rightarrow> cell \<Rightarrow> bool" where
  "less_eq_cell a b \<longleftrightarrow> cell_rank a \<le> cell_rank b"

definition less_cell :: "cell \<Rightarrow> cell \<Rightarrow> bool" where
  "less_cell a b \<longleftrightarrow> cell_rank a < cell_rank b"

instance
proof
  fix x y z :: cell
  show "(x < y) = (x \<le> y \<and> \<not> y \<le> x)"
    unfolding less_eq_cell_def less_cell_def by (rule less_le_not_le)
  show "x \<le> x"
    unfolding less_eq_cell_def by simp
  show "x \<le> y \<Longrightarrow> y \<le> z \<Longrightarrow> x \<le> z"
    unfolding less_eq_cell_def by (rule order_trans)
  have inj: "a = b" if "cell_rank a = cell_rank b" for a b
    using that by (cases a; cases b) auto
  show "x \<le> y \<Longrightarrow> y \<le> x \<Longrightarrow> x = y"
    unfolding less_eq_cell_def by (rule inj) (rule antisym)
  show "x \<le> y \<or> y \<le> x"
    unfolding less_eq_cell_def by (rule linear)
qed

end

section \<open>Query functions of CovidDataProvider\<close>

subsection \<open>group_by\<close>

text \<open>
  \<open>dataset.groupby(by=grouping_columns, as_index=False).sum(numeric_only=True)\<close>, with
  the defaults of \<open>as_index\<close> and \<open>numeric_only\<close> that every caller of the program
  leaves in place. pandas drops the rows with a missing group key, makes one row per
  distinct key in ascending order of the keys, and puts the grouping columns first,
  followed by the numeric columns that are no grouping column, each summed over the rows
  of the group with the missing values skipped (an empty sum is 0). Columns that are
  neither a key nor numeric are left out.
\<close>

definition key_of :: "nat list \<Rightarrow> cell list \<Rightarrow> cell list" where
  "key_of ks r = map (\<lambda>k. r ! k) ks"

definition sum_skipna :: "cell list \<Rightarrow> int" where
  "sum_skipna cs = sum_list (map (\<lambda>c. case c of Num n \<Rightarrow> n | _ \<Rightarrow> 0) cs)"

definition value_columns :: "dataframe \<Rightarrow> string list \<Rightarrow> string list" where
  "value_columns df by = map fst (filter (\<lambda>(c, t). c \<notin> set by \<and> t = numeric) (schema df))"

definition groupby_sum :: "dataframe \<Rightarrow> string list \<Rightarrow> dataframe" where
  "groupby_sum df by =
     (let ks = map (col df) by;
          vs = map (col df) (value_columns df by);
          live = filter (\<lambda>r. NaN \<notin> set (key_of ks r)) (rows df);
          keys = sort (remdups (map (key_of ks) live))
      in \<lparr> schema = map (\<lambda>c. (c, dtype_of df c)) by @
                     map (\<lambda>c. (c, numeric)) (value_columns df by),
           rows = map (\<lambda>k. k @ map (\<lambda>v. Num (sum_skipna
                     (map (\<lambda>r. r ! v) (filter (\<lambda>r. key_of ks r = k) live)))) vs) keys \<rparr>)"

text \<open>
  The parts of a grouped frame by name: the rows that take part, the keys of the groups
  in their order, and the total of a column in the group of a key.
\<close>

definition complete_rows :: "dataframe \<Rightarrow> string list \<Rightarrow> cell list list" where
  "complete_rows df by = filter (\<lambda>r. NaN \<notin> set (key_of (map (col df) by) r)) (rows df)"

definition group_keys :: "dataframe \<Rightarrow> string list \<Rightarrow> cell list list" where
  "group_keys df by = sort (remdups (map (key_of (map (col df) by)) (complete_rows df by)))"

definition group_total :: "dataframe \<Rightarrow> string list \<Rightarrow> string \<Rightarrow> cell list \<Rightarrow> int" where
  "group_total df by c k =
     sum_skipna (map (\<lambda>r. r ! col df c)
       (filter (\<lambda>r. key_of (map (col df) by) r = k) (complete_rows df by)))"

definition group_by :: "dataframe \<Rightarrow> string list \<Rightarrow> error + dataframe" where
  "group_by dataset grouping_columns =
     (if \<not> set grouping_columns \<subseteq> set (columns dataset)
      then Inl (AttributeError ''Columns not in dataset'')
      else Inr (groupby_sum dataset grouping_columns))"

subsection \<open>filter_by_year\<close>

text \<open>
  The calendar year of a timestamp, by the usual conversion of a day count to a civil
  date (eras of 400 years, counted from the first of March).
\<close>

definition civil_from_days :: "int \<Rightarrow> int \<times> int \<times> int" where
  "civil_from_days z =
     (let z' = z + 719468;
          era = z' div 146097;
          doe = z' - era * 146097;
          yoe = (doe - doe div 1460 + doe div 36524 - doe div 146096) div 365;
          doy = doe - (365 * yoe + yoe div 4 - yoe div 100);
          mp = (5 * doy + 2) div 153;
          d = doy - (153 * mp + 2) div 5 + 1;
          m = (if mp < 10 then mp + 3 else mp - 9);
          y = yoe + era * 400
      in (if m \<le> 2 then y + 1 else y, m, d))"

definition year_of :: "int \<Rightarrow> int" where
  "year_of z = fst (civil_from_days z)"

definition month_of :: "int \<Rightarrow> int" where
  "month_of z = fst (snd (civil_from_days z))"

text \<open>
  \<open>dataset[dataset.Date_of_publication.dt.year == year]\<close>. The \<open>.dt\<close> accessor exists on
  timestamp columns only; a missing timestamp has no year and its row is left out.
\<close>

definition filter_by_year :: "dataframe \<Rightarrow> int \<Rightarrow> error + dataframe" where
  "filter_by_year dataset year =
     (if ''Date_of_publication'' \<notin> set (columns dataset)
      then Inl (AttributeError ''No attribute Date_of_publication'')
      else if dtype_of dataset ''Date_of_publication'' \<noteq> datetime64
      then Inl (AttributeError ''Can only use .dt accessor with datetimelike values'')
      else Inr (dataset\<lparr> rows := filter
             (\<lambda>r. case r ! col dataset ''Date_of_publication'' of
                      Datetime d \<Rightarrow> year_of d = year | _ \<Rightarrow> False)
             (rows dataset) \<rparr>))"

subsection \<open>filter_by_province\<close>

text \<open>
  \<open>str.lower()\<close>: the letters A to Z are mapped to a to z. Province names are taken as
  byte strings; the case of letters outside ASCII is not modelled.
\<close>

definition lower_char :: "char \<Rightarrow> char" where
  "lower_char c =
     (if CHR ''A'' \<le> c \<and> c \<le> CHR ''Z'' then char_of (of_char c + (32 :: nat)) else c)"

definition lower :: "string \<Rightarrow> string" where
  "lower s = map lower_char s"

definition str_lower :: "cell \<Rightarrow> cell" where
  "str_lower c = (case c of Str s \<Rightarrow> Str (lower s) | _ \<Rightarrow> NaN)"

text \<open>
  \<open>dataset[dataset.Province.str.lower() == province.lower()]\<close>. The \<open>.str\<close> accessor
  exists on string columns only; a missing province compares unequal to every string.
\<close>

definition filter_by_province :: "dataframe \<Rightarrow> string \<Rightarrow> error + dataframe" where
  "filter_by_province dataset province =
     (if ''Province'' \<notin> set (columns dataset)
      then Inl (AttributeError ''No attribute Province'')
      else if dtype_of dataset ''Province'' \<noteq> object
      then Inl (AttributeError ''Can only use .str accessor with string values!'')
      else Inr (dataset\<lparr> rows := filter
             (\<lambda>r. str_lower (r ! col dataset ''Province'') = Str (lower province))
             (rows dataset) \<rparr>))"

section \<open>Building the covid dataset\<close>

text \<open>
  The provider object holds the two tables it has read and the dataset it builds from
  them. Its methods change the object in place; a method that raises leaves the changes
  it has made so far. A method is modelled as a function from the state to the outcome
  (\<open>Inl\<close> the exception raised, \<open>Inr ()\<close> a normal return) and the state it leaves.
\<close>

record CovidDataProvider =
  infections_and_mortalities :: dataframe
  hospital_admissions :: dataframe
  covid_dataset :: "dataframe option"

definition MERGE_COLUMNS :: "string list" where
  "MERGE_COLUMNS = [''Date_of_publication'', ''Municipality_name'']"

subsection \<open>Dropping the intermediary rows\<close>

text \<open>
  \<open>dataset.dropna(subset=['Municipality_name'], inplace=True)\<close>: the frame passed in
  is changed in place, and the callers pass a table of the provider, so each caller
  below stores the result back into the field it passed. pandas raises KeyError when
  the column is absent.
\<close>

definition drop_intermediary_rows :: "dataframe \<Rightarrow> error + dataframe" where
  "drop_intermediary_rows dataset =
     (if ''Municipality_name'' \<notin> set (columns dataset)
      then Inl (KeyError ''Municipality_name'')
      else Inr (dataset\<lparr> rows :=
             filter (\<lambda>r. r ! col dataset ''Municipality_name'' \<noteq> NaN) (rows dataset) \<rparr>))"

subsection \<open>Filling the missing municipalities\<close>

text \<open>
  \<open>Municipality_name.fillna(Province + ' gemeente onbekend', inplace=True)\<close>. The sum
  of a missing province and a string is missing, so a name is filled in only where the
  province is known. The sum is defined for a column of strings only. The filled column
  is stored in the table of the provider, as the pandas releases the program was
  written for do and as the docstring of the method states.
\<close>

definition fill_municipality :: "nat \<Rightarrow> nat \<Rightarrow> cell list \<Rightarrow> cell list" where
  "fill_municipality m p r =
     (case r ! m of
        NaN \<Rightarrow> (case r ! p of Str s \<Rightarrow> r[m := Str (s @ '' gemeente onbekend'')] | _ \<Rightarrow> r)
      | _ \<Rightarrow> r)"

definition is_text :: "cell \<Rightarrow> bool" where
  "is_text c = (case c of NaN \<Rightarrow> True | Str _ \<Rightarrow> True | _ \<Rightarrow> False)"

definition fill_missing_municipalities ::
  "CovidDataProvider \<Rightarrow> (error + unit) \<times> CovidDataProvider" where
  "fill_missing_municipalities self =
     (let df = infections_and_mortalities self;
          m = col df ''Municipality_name'';
          p = col df ''Province''
      in if ''Municipality_name'' \<notin> set (columns df)
         then (Inl (AttributeError ''No attribute Municipality_name''), self)
         else if ''Province'' \<notin> set (columns df)
         then (Inl (AttributeError ''No attribute Province''), self)
         else if dtype_of df ''Province'' = object \<and> list_all (\<lambda>r. is_text (r ! p)) (rows df)
         then (let filled = map (fill_municipality m p) (rows df);
                   t = (if filled = rows df then dtype_of df ''Municipality_name'' else object)
               in (Inr (), self\<lparr> infections_and_mortalities :=
                     \<lparr> schema = (schema df)[m := (''Municipality_name'', t)],
                       rows = filled \<rparr> \<rparr>))
         else (Inl (TypeError ''unsupported operand type(s) for +''), self))"

subsection \<open>Cleaning the two tables\<close>

definition drop_columns :: "dataframe \<Rightarrow> string list \<Rightarrow> dataframe" where
  "drop_columns df cs =
     \<lparr> schema = filter (\<lambda>(c, t). c \<notin> set cs) (schema df),
       rows = map (\<lambda>r. map snd (filter (\<lambda>(c, v). c \<notin> set cs) (zip (columns df) r))) (rows df) \<rparr>"

definition clean_infections_and_mortalities_dataset ::
  "CovidDataProvider \<Rightarrow> (error + unit) \<times> CovidDataProvider" where
  "clean_infections_and_mortalities_dataset self =
     (case fill_missing_municipalities self of
        (Inl e, self1) \<Rightarrow> (Inl e, self1)
      | (Inr _, self1) \<Rightarrow>
     (case drop_intermediary_rows (infections_and_mortalities self1) of
        Inl e \<Rightarrow> (Inl e, self1)
      | Inr dropped \<Rightarrow>
     (let self2 = self1\<lparr> infections_and_mortalities := dropped \<rparr>;
          columns_to_drop = [''Version'', ''Date_of_report'', ''Municipality_code'',
            ''Security_region_code'', ''Security_region_name'',
            ''Municipal_health_service'', ''ROAZ_region''];
          grouping_columns = [''Date_of_publication'', ''Province'', ''Municipality_name'']
      in if \<not> set columns_to_drop \<subseteq> set (columns dropped)
         then (Inl (AttributeError ''Columns to drop not in dataset''), self2)
         else
     (let kept = drop_columns dropped columns_to_drop;
          self3 = self2\<lparr> infections_and_mortalities := kept \<rparr>
      in if \<not> set grouping_columns \<subseteq> set (columns kept)
         then (Inl (AttributeError ''grouping columns not in dataset''), self3)
         else
     (case group_by kept grouping_columns of
        Inl e \<Rightarrow> (Inl e, self3)
      | Inr grouped \<Rightarrow> (Inr (), self3\<lparr> infections_and_mortalities := grouped \<rparr>))))))"

definition clean_hospital_admissions_dataset ::
  "CovidDataProvider \<Rightarrow> (error + unit) \<times> CovidDataProvider" where
  "clean_hospital_admissions_dataset self =
     (case drop_intermediary_rows (hospital_admissions self) of
        Inl e \<Rightarrow> (Inl e, self)
      | Inr dropped \<Rightarrow>
     (let self1 = self\<lparr> hospital_admissions := dropped \<rparr>;
          columns_to_drop = [''Version'', ''Date_of_report'', ''Municipality_code'',
            ''Security_region_code'', ''Security_region_name'',
            ''Hospital_admission_notification''];
          grouping_columns = [''Date_of_publication'', ''Municipality_name'']
      in if \<not> set columns_to_drop \<subseteq> set (columns dropped)
         then (Inl (AttributeError ''Columns to drop not in dataset''), self1)
         else
     (let kept = drop_columns dropped columns_to_drop;
          self2 = self1\<lparr> hospital_admissions := kept \<rparr>
      in if \<not> set grouping_columns \<subseteq> set (columns kept)
         then (Inl (AttributeError ''grouping columns not in dataset''), self2)
         else
     (case group_by kept grouping_columns of
        Inl e \<Rightarrow> (Inl e, self2)
      | Inr grouped \<Rightarrow> (Inr (), self2\<lparr> hospital_admissions := grouped \<rparr>)))))"

subsection \<open>Merging\<close>

text \<open>
  \<open>pd.merge(left, right, on=on, how='left')\<close>: every row of the left table, in the
  order of the left table, once for each row of the right table with the same key, and
  once with missing values for the columns of the right table when no row of the right
  table has the key. The columns are those of the left table followed by those of the
  right table that are no key; a name the two tables share outside the key gets the
  suffix \<open>_x\<close> on the left and \<open>_y\<close> on the right. pandas refuses to merge on key
  columns of different kinds.
\<close>

definition suffixed :: "string list \<Rightarrow> string \<Rightarrow> (string \<times> dtype) \<Rightarrow> (string \<times> dtype)" where
  "suffixed shared sfx = (\<lambda>(c, t). (if c \<in> set shared then c @ sfx else c, t))"

definition rest_of :: "dataframe \<Rightarrow> string list \<Rightarrow> cell list \<Rightarrow> cell list" where
  "rest_of df on r = map snd (filter (\<lambda>(c, v). c \<notin> set on) (zip (columns df) r))"

definition merge_left :: "dataframe \<Rightarrow> dataframe \<Rightarrow> string list \<Rightarrow> error + dataframe" where
  "merge_left left right on =
     (let lk = map (col left) on;
          rk = map (col right) on;
          shared = filter (\<lambda>c. c \<in> set (columns right) \<and> c \<notin> set on) (columns left);
          others = filter (\<lambda>(c, t). c \<notin> set on) (schema right)
      in if set on \<subseteq> set (columns left) \<and> set on \<subseteq> set (columns right)
         then if map (dtype_of left) on = map (dtype_of right) on
           then Inr \<lparr> schema = map (suffixed shared ''_x'') (schema left) @
                                map (suffixed shared ''_y'') others,
                      rows = concat (map (\<lambda>l.
                        (case filter (\<lambda>r. key_of rk r = key_of lk l) (rows right) of
                           [] \<Rightarrow> [l @ replicate (length others) NaN]
                         | ms \<Rightarrow> map (\<lambda>r. l @ rest_of right on r) ms)) (rows left)) \<rparr>
           else Inl (ValueError ''You are trying to merge on columns of different dtypes'')
         else Inl (KeyError ''merge key''))"

subsection \<open>Cleaning the merged dataset\<close>

text \<open>
  \<open>pd.to_datetime\<close> keeps a timestamp, reads a number as nanoseconds since 1970-01-01
  and parses a string; it raises when a string is no date. The formats pandas accepts
  are many, so the parser of strings is a parameter of the model (\<open>parse_date\<close>, the
  day a string denotes, if any); \<open>iso_date\<close> below is the parser for the dates of the
  source files, \<open>YYYY-MM-DD\<close>.
\<close>

definition to_datetime :: "(string \<Rightarrow> int option) \<Rightarrow> cell \<Rightarrow> cell option" where
  "to_datetime parse_date c =
     (case c of
        NaN \<Rightarrow> Some NaN
      | Str s \<Rightarrow> map_option Datetime (parse_date s)
      | Num n \<Rightarrow> Some (Datetime (n div 86400000000000))
      | Datetime d \<Rightarrow> Some (Datetime d))"

definition digit_char :: "nat \<Rightarrow> char" where
  "digit_char n = char_of (48 + n mod 10)"

fun digits :: "nat \<Rightarrow> string" where
  "digits n = (if n < 10 then [digit_char n] else digits (n div 10) @ [digit_char n])"

definition strftime_Y :: "cell \<Rightarrow> cell" where
  "strftime_Y c =
     (case c of
        Datetime d \<Rightarrow>
          (let ds = digits (nat (year_of d)) in Str (replicate (4 - length ds) CHR ''0'' @ ds))
      | _ \<Rightarrow> NaN)"

definition month_names :: "string list" where
  "month_names = [''January'', ''February'', ''March'', ''April'', ''May'', ''June'', ''July'',
     ''August'', ''September'', ''October'', ''November'', ''December'']"

definition strftime_B :: "cell \<Rightarrow> cell" where
  "strftime_B c =
     (case c of Datetime d \<Rightarrow> Str (month_names ! nat (month_of d - 1)) | _ \<Rightarrow> NaN)"

text \<open>\<open>df[c] = values\<close>: the column is replaced where it stands, or added last.\<close>

definition assign :: "dataframe \<Rightarrow> string \<Rightarrow> dtype \<Rightarrow> (cell list \<Rightarrow> cell) \<Rightarrow> dataframe" where
  "assign df c t f =
     (if c \<in> set (columns df)
      then \<lparr> schema = (schema df)[col df c := (c, t)],
             rows = map (\<lambda>r. r[col df c := f r]) (rows df) \<rparr>
      else \<lparr> schema = schema df @ [(c, t)], rows = map (\<lambda>r. r @ [f r]) (rows df) \<rparr>)"

definition fillna :: "cell \<Rightarrow> cell \<Rightarrow> cell" where
  "fillna v c = (case c of NaN \<Rightarrow> v | _ \<Rightarrow> c)"

text \<open>
  The method calls \<open>group_by\<close> on the merged dataset and drops what it returns:
  \<open>group_by\<close> builds a new frame and leaves its argument as it is, so only its check of
  the columns has an effect here.
\<close>

definition clean_covid_dataset ::
  "(string \<Rightarrow> int option) \<Rightarrow> CovidDataProvider \<Rightarrow> (error + unit) \<times> CovidDataProvider" where
  "clean_covid_dataset parse_date self =
     (case covid_dataset self of
        None \<Rightarrow> (Inl (AttributeError ''NoneType object has no attribute columns''), self)
      | Some merged \<Rightarrow>
     (case group_by merged MERGE_COLUMNS of
        Inl e \<Rightarrow> (Inl e, self)
      | Inr _ \<Rightarrow>
        if ''Hospital_admission'' \<notin> set (columns merged)
        then (Inl (AttributeError ''DataFrame object has no attribute Hospital_admission''), self)
        else
     (let h = col merged ''Hospital_admission'';
          filled = assign merged ''Hospital_admission'' (dtype_of merged ''Hospital_admission'')
                     (\<lambda>r. fillna (Num 0) (r ! h));
          self1 = self\<lparr> covid_dataset := Some filled \<rparr>;
          d = col filled ''Date_of_publication''
      in if list_all (\<lambda>r. to_datetime parse_date (r ! d) \<noteq> None) (rows filled)
         then
           (let dated = assign filled ''Date_of_publication'' datetime64
                          (\<lambda>r. the (to_datetime parse_date (r ! d)));
                d1 = col dated ''Date_of_publication'';
                with_year = assign dated ''Year'' object (\<lambda>r. strftime_Y (r ! d1));
                d2 = col with_year ''Date_of_publication'';
                with_month = assign with_year ''Month'' object (\<lambda>r. strftime_B (r ! d2))
            in (Inr (), self\<lparr> covid_dataset := Some with_month \<rparr>))
         else (Inl (ValueError ''Unknown datetime string format''), self1))))"

subsection \<open>_build_covid_dataset\<close>

definition build_covid_dataset ::
  "(string \<Rightarrow> int option) \<Rightarrow> CovidDataProvider \<Rightarrow> (error + unit) \<times> CovidDataProvider" where
  "build_covid_dataset parse_date self =
     (if \<not> set MERGE_COLUMNS \<subseteq> set (columns (infections_and_mortalities self))
      then (Inl (AttributeError ''Merge columns not present on infections and mortalities''), self)
      else if \<not> set MERGE_COLUMNS \<subseteq> set (columns (hospital_admissions self))
      then (Inl (AttributeError ''Merge columns not present on hospital_admissions''), self)
      else
     (case clean_infections_and_mortalities_dataset self of
        (Inl e, self1) \<Rightarrow> (Inl e, self1)
      | (Inr _, self1) \<Rightarrow>
     (case clean_hospital_admissions_dataset self1 of
        (Inl e, self2) \<Rightarrow> (Inl e, self2)
      | (Inr _, self2) \<Rightarrow>
     (case merge_left (infections_and_mortalities self2) (hospital_admissions self2)
             MERGE_COLUMNS of
        Inl e \<Rightarrow> (Inl e, self2)
      | Inr merged \<Rightarrow> clean_covid_dataset parse_date (self2\<lparr> covid_dataset := Some merged \<rparr>)))))"

subsection \<open>The dates of the source files\<close>

definition digit_val :: "char \<Rightarrow> nat option" where
  "digit_val c =
     (if CHR ''0'' \<le> c \<and> c \<le> CHR ''9'' then Some (of_char c - 48) else None)"

fun number :: "nat \<Rightarrow> string \<Rightarrow> nat option" where
  "number acc [] = Some acc"
| "number acc (c # cs) =
     (case digit_val c of None \<Rightarrow> None | Some v \<Rightarrow> number (10 * acc + v) cs)"

definition days_from_civil :: "int \<Rightarrow> int \<Rightarrow> int \<Rightarrow> int" where
  "days_from_civil y m d =
     (let y' = (if m \<le> 2 then y - 1 else y);
          era = y' div 400;
          yoe = y' - era * 400;
          doy = (153 * (if m > 2 then m - 3 else m + 9) + 2) div 5 + d - 1;
          doe = yoe * 365 + yoe div 4 - yoe div 100 + doy
      in era * 146097 + doe - 719468)"

definition iso_date :: "string \<Rightarrow> int option" where
  "iso_date s =
     (if length s = 10 \<and> s ! 4 = CHR ''-'' \<and> s ! 7 = CHR ''-''
      then (case (number 0 (take 4 s), number 0 (take 2 (drop 5 s)), number 0 (drop 8 s)) of
              (Some y, Some m, Some d) \<Rightarrow>
                (let z = days_from_civil (int y) (int m) (int d)
                 in if civil_from_days z = (int y, int m, int d) then Some z else None)
            | _ \<Rightarrow> None)
      else None)"

section \<open>The forecast of CovidArimaModel\<close>

text \<open>
  The frames of the model are indexed by date: a row is a day (the days since
  1970-01-01) with the cells of the columns.
\<close>

record timeseries =
  ts_schema :: "(string \<times> dtype) list"
  ts_rows :: "(int \<times> cell list) list"

definition ts_columns :: "timeseries \<Rightarrow> string list" where
  "ts_columns df = map fst (ts_schema df)"

text \<open>
  \<open>get_covid_time_series\<close>: the dataset summed by date, the date made the index, and
  the index filled to every day from the least date to the greatest (\<open>asfreq('d')\<close>); a
  day without a row gets missing values. \<open>asfreq\<close> needs an index of timestamps, and a
  least and a greatest date.
\<close>

definition get_covid_time_series :: "dataframe \<Rightarrow> error + timeseries" where
  "get_covid_time_series dataset =
     (case group_by dataset [''Date_of_publication''] of
        Inl e \<Rightarrow> Inl e
      | Inr grouped \<Rightarrow>
          if dtype_of grouped ''Date_of_publication'' \<noteq> datetime64
          then Inl (TypeError ''Cannot convert input to Timestamp'')
          else
            (let indexed = List.map_filter
                   (\<lambda>r. case r of Datetime d # vs \<Rightarrow> Some (d, vs) | _ \<Rightarrow> None) (rows grouped);
                 others = tl (schema grouped)
             in if indexed = []
                then Inl (ValueError ''Neither start nor end can be NaT'')
                else Inr \<lparr> ts_schema = others,
                           ts_rows = map (\<lambda>d. (d, case map_of indexed d of
                                                    Some vs \<Rightarrow> vs
                                                  | None \<Rightarrow> replicate (length others) NaN))
                                       [Min (set (map fst indexed))..Max (set (map fst indexed))] \<rparr>))"

text \<open>
  \<open>pd.concat([a, b])\<close>: the rows of \<open>a\<close> followed by the rows of \<open>b\<close>, over the columns
  of \<open>a\<close> followed by the columns only \<open>b\<close> has; a cell of a column a frame does not have
  is missing.
\<close>

definition concat_frames :: "timeseries \<Rightarrow> timeseries \<Rightarrow> timeseries" where
  "concat_frames a b =
     (let new = filter (\<lambda>(c, t). c \<notin> set (ts_columns a)) (ts_schema b);
          all = ts_schema a @ new
      in \<lparr> ts_schema = all,
           ts_rows = map (\<lambda>(d, r). (d, r @ replicate (length new) NaN)) (ts_rows a) @
                     map (\<lambda>(d, r). (d, map (\<lambda>c. if c \<in> set (ts_columns b)
                                                   then r ! index_of c (ts_columns b) else NaN)
                                             (map fst all))) (ts_rows b) \<rparr>)"

text \<open>
  \<open>a.join(b)\<close>: every row of \<open>a\<close> with the cells of the row of \<open>b\<close> for the same date,
  or with missing values when \<open>b\<close> has no such row. pandas refuses to join frames that
  share a column name. The dates of \<open>b\<close> are distinct where the program calls it.
\<close>

definition join_frames :: "timeseries \<Rightarrow> timeseries \<Rightarrow> error + timeseries" where
  "join_frames a b =
     (if list_ex (\<lambda>c. c \<in> set (ts_columns a)) (ts_columns b)
      then Inl (ValueError ''columns overlap but no suffix specified'')
      else Inr \<lparr> ts_schema = ts_schema a @ ts_schema b,
                 ts_rows = map (\<lambda>(d, r). (d, r @ (case map_of (ts_rows b) d of
                                                    Some v \<Rightarrow> v
                                                  | None \<Rightarrow> replicate (length (ts_schema b)) NaN)))
                             (ts_rows a) \<rparr>)"

text \<open>
  \<open>get_prediction\<close>. The fit of the ARIMA model is the work of statsmodels and is a
  parameter of the model: \<open>arima\<close> takes the series of the property and raises, or
  gives the fitted model, which is read as the function from a step \<open>i\<close> to the mean
  and the lower and upper bound of the interval that it forecasts for the day \<open>i + 1\<close>
  days after the last day of the series. \<open>get_forecast\<close> takes a positive number of
  steps and labels them with the days that follow the series.
\<close>

definition get_prediction ::
  "((int \<times> cell) list \<Rightarrow> error + (nat \<Rightarrow> cell \<times> cell \<times> cell)) \<Rightarrow>
   dataframe \<Rightarrow> string \<Rightarrow> int \<Rightarrow> nat \<Rightarrow> error + timeseries" where
  "get_prediction arima dataset property_to_predict from_date days_to_forecast =
     (case get_covid_time_series dataset of
        Inl e \<Rightarrow> Inl e
      | Inr df \<Rightarrow>
          if property_to_predict \<notin> set (ts_columns df) then Inl (KeyError property_to_predict)
          else
     (case arima (map (\<lambda>(d, r). (d, r ! index_of property_to_predict (ts_columns df)))
                   (ts_rows df)) of
        Inl e \<Rightarrow> Inl e
      | Inr fitted \<Rightarrow>
          if days_to_forecast = 0
          then Inl (ValueError ''Prediction must have end after start'')
          else
     (let row_labels = map (\<lambda>i. fst (last (ts_rows df)) + 1 + int i) [0..<days_to_forecast];
          conf_interval =
            \<lparr> ts_schema = [(''lower '' @ property_to_predict, numeric),
                            (''upper '' @ property_to_predict, numeric)],
              ts_rows = map (\<lambda>i. (row_labels ! i,
                                   [fst (snd (fitted i)), snd (snd (fitted i))]))
                          [0..<days_to_forecast] \<rparr>;
          df_forecasts =
            \<lparr> ts_schema = [(''predicted_mean'', numeric)],
              ts_rows = map (\<lambda>i. (row_labels ! i, [fst (fitted i)])) [0..<days_to_forecast] \<rparr>
      in case join_frames (concat_frames df df_forecasts) conf_interval of
           Inl e \<Rightarrow> Inl e
         | Inr joined \<Rightarrow>
             Inr (joined\<lparr> ts_rows := filter (\<lambda>(d, r). from_date \<le> d) (ts_rows joined) \<rparr>))))"

section \<open>Notions of the specification\<close>




section \<open>Example tables\<close>


text \<open>The case table of the scenario of the specification.\<close>

definition scenario :: dataframe where
  "scenario =
     \<lparr> schema = [(''Date_of_publication'', object), (''Province'', object),
                 (''Municipality_name'', object), (''Total_reported'', numeric)],
       rows = [[Str ''2021-01-01'', Str ''Utrecht'', Str ''Utrecht city'', Num 10],
               [Str ''2021-01-01'', Str ''Utrecht'', NaN, Num 5]] \<rparr>"

definition empty_frame :: dataframe where
  "empty_frame = \<lparr> schema = [], rows = [] \<rparr>"

text \<open>A table with counts only: it has none of the columns the operations ask for.\<close>

definition counts_only :: dataframe where
  "counts_only = \<lparr> schema = [(''Total_reported'', numeric)], rows = [[Num 3], [Num 4]] \<rparr>"

text \<open>A case table with a row that names neither its municipality nor its province.\<close>

definition both_null_example :: dataframe where
  "both_null_example =
     \<lparr> schema = [(''Date_of_publication'', object), (''Province'', object),
                 (''Municipality_name'', object), (''Total_reported'', numeric)],
       rows = [[Str ''2021-01-01'', Str ''Utrecht'', Str ''Utrecht city'', Num 10],
               [Str ''2021-01-01'', Str ''Utrecht'', NaN, Num 5],
               [Str ''2021-01-01'', NaN, NaN, Num 7]] \<rparr>"

text \<open>
  Raw tables with the columns of the source files. In \<open>cases_example\<close> no two rows of
  the cleaned table share a date and a municipality; in \<open>same_name_example\<close> two
  provinces have a municipality of the same name on one day.
\<close>

definition case_header :: "(string \<times> dtype) list" where
  "case_header =
     [(''Version'', numeric), (''Date_of_report'', object), (''Date_of_publication'', object),
      (''Municipality_code'', object), (''Municipality_name'', object), (''Province'', object),
      (''Security_region_code'', object), (''Security_region_name'', object),
      (''Municipal_health_service'', object), (''ROAZ_region'', object),
      (''Total_reported'', numeric), (''Deceased'', numeric)]"

definition admission_header :: "(string \<times> dtype) list" where
  "admission_header =
     [(''Version'', numeric), (''Date_of_report'', object), (''Date_of_publication'', object),
      (''Municipality_code'', object), (''Municipality_name'', object),
      (''Security_region_code'', object), (''Security_region_name'', object),
      (''Hospital_admission_notification'', numeric), (''Hospital_admission'', numeric)]"

definition case_row :: "string \<Rightarrow> cell \<Rightarrow> cell \<Rightarrow> int \<Rightarrow> int \<Rightarrow> cell list" where
  "case_row date municipality province reported deceased =
     [Num 1, Str ''2021-10-05 10:00:00'', Str date, NaN, municipality, province, NaN, NaN, NaN,
      NaN, Num reported, Num deceased]"

definition admission_row :: "string \<Rightarrow> cell \<Rightarrow> int \<Rightarrow> cell list" where
  "admission_row date municipality admitted =
     [Num 1, Str ''2021-10-05 10:00:00'', Str date, NaN, municipality, NaN, NaN, Num 0,
      Num admitted]"

definition admissions_example :: dataframe where
  "admissions_example =
     \<lparr> schema = admission_header,
       rows = [admission_row ''2021-01-01'' (Str ''Bergen'') 2,
               admission_row ''2021-01-01'' (Str ''Bergen'') 1,
               admission_row ''2021-01-01'' NaN 4,
               admission_row ''2021-01-03'' (Str ''Utrecht'') 1] \<rparr>"

definition cases_example :: dataframe where
  "cases_example =
     \<lparr> schema = case_header,
       rows = [case_row ''2021-01-02'' (Str ''Utrecht'') (Str ''Utrecht'') 10 1,
               case_row ''2021-01-01'' (Str ''Bergen'') (Str ''Limburg'') 3 0,
               case_row ''2021-01-02'' NaN (Str ''Utrecht'') 5 0,
               case_row ''2021-01-01'' (Str ''Bergen'') (Str ''Limburg'') 4 1,
               case_row ''2021-01-02'' NaN NaN 7 0] \<rparr>"

definition same_name_example :: dataframe where
  "same_name_example =
     \<lparr> schema = case_header,
       rows = [case_row ''2021-01-01'' (Str ''Bergen'') (Str ''Limburg'') 3 0,
               case_row ''2021-01-01'' (Str ''Bergen'') (Str ''Noord-Holland'') 4 1] \<rparr>"

definition provider :: "dataframe \<Rightarrow> dataframe \<Rightarrow> CovidDataProvider" where
  "provider cases admissions =
     \<lparr> infections_and_mortalities = cases, hospital_admissions = admissions,
       covid_dataset = None \<rparr>"

text \<open>
  A built dataset of three days, with no row for the second of January, and a fitted
  model that forecasts 100, 110, ... with the bounds 10 below and above.
\<close>

definition built_example :: dataframe where
  "built_example =
     \<lparr> schema = [(''Date_of_publication'', datetime64), (''Province'', object),
                 (''Municipality_name'', object), (''Total_reported'', numeric),
                 (''Hospital_admission'', numeric)],
       rows = [[Datetime 18628, Str ''Limburg'', Str ''Bergen'', Num 3, Num 1],
               [Datetime 18628, Str ''Utrecht'', Str ''Utrecht'', Num 4, Num 0],
               [Datetime 18630, Str ''Utrecht'', Str ''Utrecht'', Num 5, Num 2]] \<rparr>"

definition fitted_example :: "(int \<times> cell) list \<Rightarrow> error + (nat \<Rightarrow> cell \<times> cell \<times> cell)" where
  "fitted_example history =
     Inr (\<lambda>i. (Num (100 + 10 * int i), Num (90 + 10 * int i), Num (110 + 10 * int i)))"

text \<open>
  A table without missing values, and a table where a row lacks its municipality.
\<close>

definition totals_example :: dataframe where
  "totals_example =
     \<lparr> schema = [(''Province'', object), (''Municipality_name'', object),
                 (''Total_reported'', numeric)],
       rows = [[Str ''Utrecht'', Str ''Utrecht city'', Num 10],
               [Str ''Limburg'', Str ''Bergen'', Num 2],
               [Str ''Utrecht'', Str ''Zeist'', Num 5],
               [Str ''Utrecht'', Str ''Utrecht city'', Num 1]] \<rparr>"

definition missing_key_example :: dataframe where
  "missing_key_example =
     \<lparr> schema = [(''Province'', object), (''Municipality_name'', object),
                 (''Total_reported'', numeric)],
       rows = [[Str ''Utrecht'', Str ''Utrecht city'', Num 10],
               [Str ''Utrecht'', NaN, Num 5]] \<rparr>"

section \<open>Properties\<close>

subsection \<open>Columns and rows\<close>

lemma index_of_less: "c \<in> set xs \<Longrightarrow> index_of c xs < length xs"
  by (induction xs) auto

lemma nth_index_of: "c \<in> set xs \<Longrightarrow> xs ! index_of c xs = c"
  by (induction xs) auto

lemma col_less: "c \<in> set (columns df) \<Longrightarrow> col df c < length (schema df)"
  using index_of_less [of c "columns df"] by (simp add: col_def columns_def)

lemma columns_retyped:
  assumes "c \<in> set (columns df)"
  shows "map fst ((schema df)[col df c := (c, t)]) = columns df"
proof -
  have "map fst ((schema df)[col df c := (c, t)]) = (columns df)[col df c := c]"
    by (simp add: columns_def map_update)
  also have "\<dots> = columns df"
    using nth_index_of [OF assms] by (metis col_def list_update_id)
  finally show ?thesis .
qed

lemma row_length: "rectangular df \<Longrightarrow> r \<in> set (rows df) \<Longrightarrow> length r = length (schema df)"
  by (auto simp: rectangular_def list_all_iff)

subsection \<open>Schema checks\<close>

text \<open>
  C1 (as amended). Each of \<open>filter_by_year\<close>, \<open>filter_by_province\<close>, \<open>group_by\<close> and
  \<open>_build_covid_dataset\<close> raises AttributeError when a column it checks for is absent
  (the date column, the province column, a grouping column, a merge column of either
  table), and returns no frame; the build leaves the provider as it was, so no dataset
  is set. The error carries a fixed message: it names the column for the two filters,
  and for \<open>group_by\<close> and the build it only says that columns are absent.
\<close>

theorem schema_checks_raise:
  "(''Date_of_publication'' \<notin> set (columns dataset) \<longrightarrow>
      filter_by_year dataset year = Inl (AttributeError ''No attribute Date_of_publication'')) \<and>
   (''Province'' \<notin> set (columns dataset) \<longrightarrow>
      filter_by_province dataset province = Inl (AttributeError ''No attribute Province'')) \<and>
   (\<not> set grouping_columns \<subseteq> set (columns dataset) \<longrightarrow>
      group_by dataset grouping_columns = Inl (AttributeError ''Columns not in dataset'')) \<and>
   (\<not> set MERGE_COLUMNS \<subseteq> set (columns (infections_and_mortalities self)) \<longrightarrow>
      build_covid_dataset parse_date self =
        (Inl (AttributeError ''Merge columns not present on infections and mortalities''), self)) \<and>
   (set MERGE_COLUMNS \<subseteq> set (columns (infections_and_mortalities self)) \<and>
    \<not> set MERGE_COLUMNS \<subseteq> set (columns (hospital_admissions self)) \<longrightarrow>
      build_covid_dataset parse_date self =
        (Inl (AttributeError ''Merge columns not present on hospital_admissions''), self))"
  by (simp add: filter_by_year_def filter_by_province_def group_by_def build_covid_dataset_def)

theorem schema_checks_raise_witness:
  "''Date_of_publication'' \<notin> set (columns counts_only) \<and>
   filter_by_year counts_only 2021 = Inl (AttributeError ''No attribute Date_of_publication'') \<and>
   ''Province'' \<notin> set (columns counts_only) \<and>
   filter_by_province counts_only ''Utrecht'' = Inl (AttributeError ''No attribute Province'') \<and>
   \<not> set [''Year'', ''Province''] \<subseteq> set (columns counts_only) \<and>
   group_by counts_only [''Year'', ''Province''] = Inl (AttributeError ''Columns not in dataset'') \<and>
   build_covid_dataset iso_date
     \<lparr> infections_and_mortalities = counts_only, hospital_admissions = scenario,
       covid_dataset = None \<rparr> =
     (Inl (AttributeError ''Merge columns not present on infections and mortalities''),
      \<lparr> infections_and_mortalities = counts_only, hospital_admissions = scenario,
        covid_dataset = None \<rparr>) \<and>
   build_covid_dataset iso_date
     \<lparr> infections_and_mortalities = scenario, hospital_admissions = counts_only,
       covid_dataset = None \<rparr> =
     (Inl (AttributeError ''Merge columns not present on hospital_admissions''),
      \<lparr> infections_and_mortalities = scenario, hospital_admissions = counts_only,
        covid_dataset = None \<rparr>)"
proof -
  have none: "set (columns counts_only) = {''Total_reported''}"
    by (simp add: counts_only_def columns_def)
  have both: "set MERGE_COLUMNS \<subseteq> set (columns scenario)"
    by (simp add: MERGE_COLUMNS_def scenario_def columns_def)
  have miss: "\<not> set MERGE_COLUMNS \<subseteq> set (columns counts_only)"
    by (simp add: MERGE_COLUMNS_def none)
  show ?thesis
    using schema_checks_raise [where dataset = counts_only and year = 2021
        and province = "''Utrecht''" and grouping_columns = "[''Year'', ''Province'']"
        and parse_date = iso_date
        and self = "\<lparr> infections_and_mortalities = counts_only,
           hospital_admissions = scenario, covid_dataset = None \<rparr>"]
      schema_checks_raise [where dataset = counts_only and year = 2021
        and province = "''Utrecht''" and grouping_columns = "[''Year'', ''Province'']"
        and parse_date = iso_date
        and self = "\<lparr> infections_and_mortalities = scenario,
           hospital_admissions = counts_only, covid_dataset = None \<rparr>"]
      both miss
    by (simp add: none)
qed

text \<open>
  C1 as stated fails: the error of \<open>group_by\<close> does not identify the missing columns.
  The same error is raised whether the column \<open>Province\<close> or the columns \<open>Year\<close> and
  \<open>Month\<close> are missing.
\<close>

theorem schema_error_names_no_columns:
  "group_by counts_only [''Province''] = Inl (AttributeError ''Columns not in dataset'') \<and>
   group_by counts_only [''Year'', ''Month''] = Inl (AttributeError ''Columns not in dataset'')"
  by (simp add: group_by_def counts_only_def columns_def)

subsection \<open>Filtering by province\<close>








subsection \<open>Cleaning the case table\<close>

text \<open>
  C3 (as amended). On the case table of the scenario, filling the missing
  municipalities, dropping the intermediary rows and grouping by date, province and
  municipality gives two rows: the row of Utrecht city with 10, and the row that had no
  municipality, kept under the name \<open>Utrecht gemeente onbekend\<close> with 5.
\<close>

theorem scenario_keeps_filled_row:
  "(case fill_missing_municipalities
          \<lparr> infections_and_mortalities = scenario, hospital_admissions = admissions,
            covid_dataset = built \<rparr> of
      (Inl e, self) \<Rightarrow> Inl e
    | (Inr u, self) \<Rightarrow>
        (case drop_intermediary_rows (infections_and_mortalities self) of
           Inl e \<Rightarrow> Inl e
         | Inr dropped \<Rightarrow>
             group_by dropped [''Date_of_publication'', ''Province'', ''Municipality_name'']))
   = Inr \<lparr> schema = [(''Date_of_publication'', object), (''Province'', object),
                 (''Municipality_name'', object), (''Total_reported'', numeric)],
       rows = [[Str ''2021-01-01'', Str ''Utrecht'', Str ''Utrecht city'', Num 10],
               [Str ''2021-01-01'', Str ''Utrecht'', Str ''Utrecht gemeente onbekend'',
                Num 5]] \<rparr>"
  by (simp add: fill_missing_municipalities_def drop_intermediary_rows_def group_by_def
      groupby_sum_def scenario_def columns_def col_def dtype_of_def key_of_def sum_skipna_def
      value_columns_def fill_municipality_def is_text_def less_eq_cell_def less_cell_def
      less_eq_char_def less_char_def)

text \<open>
  C3 as stated fails. On the scenario the fill names the row without a municipality
  \<open>Utrecht gemeente onbekend\<close>, the drop then removes nothing, and the grouping of
  the two rows is not the single row of Utrecht city.
\<close>

theorem scenario_not_one_row:
  "fill_missing_municipalities
     \<lparr> infections_and_mortalities = scenario, hospital_admissions = empty_frame,
       covid_dataset = None \<rparr> =
     (Inr (),
      \<lparr> infections_and_mortalities =
          \<lparr> schema = [(''Date_of_publication'', object), (''Province'', object),
                    (''Municipality_name'', object), (''Total_reported'', numeric)],
            rows = [[Str ''2021-01-01'', Str ''Utrecht'', Str ''Utrecht city'', Num 10],
                    [Str ''2021-01-01'', Str ''Utrecht'', Str ''Utrecht gemeente onbekend'',
                     Num 5]] \<rparr>,
        hospital_admissions = empty_frame, covid_dataset = None \<rparr>) \<and>
   drop_intermediary_rows
     \<lparr> schema = [(''Date_of_publication'', object), (''Province'', object),
               (''Municipality_name'', object), (''Total_reported'', numeric)],
       rows = [[Str ''2021-01-01'', Str ''Utrecht'', Str ''Utrecht city'', Num 10],
               [Str ''2021-01-01'', Str ''Utrecht'', Str ''Utrecht gemeente onbekend'',
                Num 5]] \<rparr> =
     Inr \<lparr> schema = [(''Date_of_publication'', object), (''Province'', object),
                   (''Municipality_name'', object), (''Total_reported'', numeric)],
           rows = [[Str ''2021-01-01'', Str ''Utrecht'', Str ''Utrecht city'', Num 10],
                   [Str ''2021-01-01'', Str ''Utrecht'', Str ''Utrecht gemeente onbekend'',
                    Num 5]] \<rparr> \<and>
   group_by
     \<lparr> schema = [(''Date_of_publication'', object), (''Province'', object),
               (''Municipality_name'', object), (''Total_reported'', numeric)],
       rows = [[Str ''2021-01-01'', Str ''Utrecht'', Str ''Utrecht city'', Num 10],
               [Str ''2021-01-01'', Str ''Utrecht'', Str ''Utrecht gemeente onbekend'',
                Num 5]] \<rparr>
     [''Date_of_publication'', ''Province'', ''Municipality_name''] \<noteq>
     Inr \<lparr> schema = [(''Date_of_publication'', object), (''Province'', object),
                   (''Municipality_name'', object), (''Total_reported'', numeric)],
           rows = [[Str ''2021-01-01'', Str ''Utrecht'', Str ''Utrecht city'', Num 10]] \<rparr>"
  by code_simp

lemma fill_municipality_null:
  assumes "m < length r" and "is_text (r ! p)"
  shows "fill_municipality m p r ! m \<noteq> NaN \<longleftrightarrow> \<not> (r ! m = NaN \<and> r ! p = NaN)"
  using assms by (auto simp: fill_municipality_def is_text_def split: cell.splits)

text \<open>
  C10. When the fill step returns on a rectangular case table, a row whose municipality
  and province are both missing is left as it is by the fill, and the drop step that
  follows removes exactly these rows: what remains are the other rows, filled, in their
  order.
\<close>

theorem null_province_rows_dropped:
  assumes wf: "rectangular (infections_and_mortalities self)"
    and fill: "fill_missing_municipalities self = (Inr (), self1)"
  shows "\<exists>dropped.
    drop_intermediary_rows (infections_and_mortalities self1) = Inr dropped \<and>
    rows dropped =
      map (fill_municipality (col (infections_and_mortalities self) ''Municipality_name'')
             (col (infections_and_mortalities self) ''Province''))
        (filter (\<lambda>r. \<not> (r ! col (infections_and_mortalities self) ''Municipality_name'' = NaN \<and>
                         r ! col (infections_and_mortalities self) ''Province'' = NaN))
           (rows (infections_and_mortalities self))) \<and>
    (\<forall>r. r ! col (infections_and_mortalities self) ''Municipality_name'' = NaN \<and>
         r ! col (infections_and_mortalities self) ''Province'' = NaN \<longrightarrow>
         fill_municipality (col (infections_and_mortalities self) ''Municipality_name'')
           (col (infections_and_mortalities self) ''Province'') r = r)"
proof -
  define df where "df = infections_and_mortalities self"
  define m where "m = col df ''Municipality_name''"
  define p where "p = col df ''Province''"
  from fill have mem: "''Municipality_name'' \<in> set (columns df)"
    and strings: "list_all (\<lambda>r. is_text (r ! p)) (rows df)"
    and self1: "infections_and_mortalities self1 =
      \<lparr> schema = (schema df)[m := (''Municipality_name'',
            if map (fill_municipality m p) (rows df) = rows df
            then dtype_of df ''Municipality_name'' else object)],
        rows = map (fill_municipality m p) (rows df) \<rparr>"
    by (auto simp: fill_missing_municipalities_def Let_def df_def m_def p_def split: if_splits)
  have cols: "columns (infections_and_mortalities self1) = columns df"
    unfolding self1 using columns_retyped [OF mem] by (simp add: columns_def m_def)
  have m1: "col (infections_and_mortalities self1) ''Municipality_name'' = m"
    by (simp add: col_def cols m_def)
  have keep: "fill_municipality m p r ! m \<noteq> NaN \<longleftrightarrow> \<not> (r ! m = NaN \<and> r ! p = NaN)"
    if "r \<in> set (rows df)" for r
  proof (rule fill_municipality_null)
    show "m < length r"
      using row_length [OF wf [folded df_def] that] col_less [OF mem] by (simp add: m_def)
    show "is_text (r ! p)"
      using strings that by (simp add: list_all_iff)
  qed
  have "drop_intermediary_rows (infections_and_mortalities self1) =
      Inr ((infections_and_mortalities self1)\<lparr> rows :=
        filter (\<lambda>r. r ! m \<noteq> NaN) (map (fill_municipality m p) (rows df)) \<rparr>)"
    using mem by (simp add: drop_intermediary_rows_def cols m1) (simp add: self1)
  moreover have "filter (\<lambda>r. r ! m \<noteq> NaN) (map (fill_municipality m p) (rows df)) =
      map (fill_municipality m p) (filter (\<lambda>r. \<not> (r ! m = NaN \<and> r ! p = NaN)) (rows df))"
    unfolding filter_map by (rule arg_cong [where f = "map _"], rule filter_cong) (auto simp: keep)
  moreover have "fill_municipality m p r = r" if "r ! m = NaN \<and> r ! p = NaN" for r
    using that by (simp add: fill_municipality_def)
  ultimately show ?thesis
    unfolding df_def [symmetric] m_def [symmetric] p_def [symmetric] by simp
qed

theorem null_province_rows_dropped_witness:
  "rectangular both_null_example \<and>
   (\<exists>self1 dropped.
      fill_missing_municipalities
        \<lparr> infections_and_mortalities = both_null_example, hospital_admissions = empty_frame,
          covid_dataset = None \<rparr> = (Inr (), self1) \<and>
      rows (infections_and_mortalities self1) =
        [[Str ''2021-01-01'', Str ''Utrecht'', Str ''Utrecht city'', Num 10],
         [Str ''2021-01-01'', Str ''Utrecht'', Str ''Utrecht gemeente onbekend'', Num 5],
         [Str ''2021-01-01'', NaN, NaN, Num 7]] \<and>
      drop_intermediary_rows (infections_and_mortalities self1) = Inr dropped \<and>
      rows dropped =
        [[Str ''2021-01-01'', Str ''Utrecht'', Str ''Utrecht city'', Num 10],
         [Str ''2021-01-01'', Str ''Utrecht'', Str ''Utrecht gemeente onbekend'', Num 5]])"
proof -
  define self where "self = \<lparr> infections_and_mortalities = both_null_example,
    hospital_admissions = empty_frame, covid_dataset = None \<rparr>"
  have wf: "rectangular (infections_and_mortalities self)"
    by (simp add: self_def both_null_example_def rectangular_def)
  obtain self1 where fill: "fill_missing_municipalities self = (Inr (), self1)"
    and rows1: "rows (infections_and_mortalities self1) =
        [[Str ''2021-01-01'', Str ''Utrecht'', Str ''Utrecht city'', Num 10],
         [Str ''2021-01-01'', Str ''Utrecht'', Str ''Utrecht gemeente onbekend'', Num 5],
         [Str ''2021-01-01'', NaN, NaN, Num 7]]"
    by (simp add: self_def both_null_example_def fill_missing_municipalities_def
        columns_def col_def dtype_of_def is_text_def fill_municipality_def)
  from null_province_rows_dropped [OF wf fill]
  obtain dropped where "drop_intermediary_rows (infections_and_mortalities self1) = Inr dropped"
    and "rows dropped =
        [[Str ''2021-01-01'', Str ''Utrecht'', Str ''Utrecht city'', Num 10],
         [Str ''2021-01-01'', Str ''Utrecht'', Str ''Utrecht gemeente onbekend'', Num 5]]"
    by (auto simp: self_def both_null_example_def columns_def col_def fill_municipality_def)
  with wf fill rows1 show ?thesis
    unfolding self_def by auto
qed

subsection \<open>Grouped frames\<close>

lemma columns_groupby_sum: "columns (groupby_sum df by) = by @ value_columns df by"
  by (simp add: groupby_sum_def columns_def Let_def comp_def)

lemma length_key_of: "length (key_of ks r) = length ks"
  by (simp add: key_of_def)

lemma rows_groupby_sum:
  assumes "row \<in> set (rows (groupby_sum df by))"
  shows "\<exists>r \<in> set (rows df). \<exists>sums. NaN \<notin> set (key_of (map (col df) by) r) \<and>
           row = key_of (map (col df) by) r @ sums \<and>
           length sums = length (value_columns df by)"
  using assms by (auto simp: groupby_sum_def Let_def)

lemma rectangular_groupby_sum: "rectangular (groupby_sum df by)"
  by (auto simp: rectangular_def list_all_iff groupby_sum_def Let_def length_key_of)

lemma group_keys_distinct:
  "distinct (map (take (length by)) (rows (groupby_sum df by)))"
proof -
  define ks where "ks = map (col df) by"
  define live where "live = filter (\<lambda>r. NaN \<notin> set (key_of ks r)) (rows df)"
  define keys where "keys = sort (remdups (map (key_of ks) live))"
  have len: "length k = length by" if "k \<in> set keys" for k
    using that by (auto simp: keys_def ks_def length_key_of)
  have "map (take (length by)) (rows (groupby_sum df by)) = keys"
    unfolding groupby_sum_def Let_def ks_def [symmetric] live_def [symmetric] keys_def [symmetric]
    by (simp add: comp_def) (rule map_idI, simp add: len)
  moreover have "distinct keys"
    by (simp add: keys_def)
  ultimately show ?thesis by simp
qed

lemma filter_unique_key:
  "distinct (map f xs) \<Longrightarrow> filter (\<lambda>x. f x = k) xs = [] \<or> (\<exists>a. filter (\<lambda>x. f x = k) xs = [a])"
proof (induction xs)
  case Nil
  then show ?case by simp
next
  case (Cons x xs)
  show ?case
  proof (cases "f x = k")
    case True
    from Cons.prems have "f x \<notin> f ` set xs"
      by simp
    with True have "\<forall>y \<in> set xs. f y \<noteq> k"
      by blast
    then have "filter (\<lambda>x. f x = k) xs = []"
      by (simp add: filter_empty_conv)
    with True show ?thesis by simp
  next
    case False
    with Cons show ?thesis by simp
  qed
qed

lemma rows_merge_left:
  assumes ok: "merge_left left right on = Inr merged"
    and uniq: "distinct (map (key_of (map (col right) on)) (rows right))"
  shows "rows merged = map (\<lambda>l.
     l @ (case filter (\<lambda>r. key_of (map (col right) on) r = key_of (map (col left) on) l)
                 (rows right) of
             [] \<Rightarrow> replicate (length (filter (\<lambda>(c, t). c \<notin> set on) (schema right))) NaN
           | a # _ \<Rightarrow> rest_of right on a)) (rows left)"
proof -
  have one: "(case filter (\<lambda>r. key_of (map (col right) on) r = k) (rows right) of
         [] \<Rightarrow> [l @ replicate n NaN]
       | ms \<Rightarrow> map (\<lambda>r. l @ rest_of right on r) ms) =
     [l @ (case filter (\<lambda>r. key_of (map (col right) on) r = k) (rows right) of
             [] \<Rightarrow> replicate n NaN
           | a # _ \<Rightarrow> rest_of right on a)]" for l k n
    using filter_unique_key [OF uniq, of k] by (auto split: list.splits)
  from ok have "rows merged = concat (map (\<lambda>l.
       (case filter (\<lambda>r. key_of (map (col right) on) r = key_of (map (col left) on) l)
                 (rows right) of
          [] \<Rightarrow> [l @ replicate (length (filter (\<lambda>(c, t). c \<notin> set on) (schema right))) NaN]
        | ms \<Rightarrow> map (\<lambda>r. l @ rest_of right on r) ms)) (rows left))"
    by (auto simp: merge_left_def Let_def split: if_splits)
  then show ?thesis
    unfolding one by (simp add: comp_def)
  qed

subsection \<open>Columns kept, dropped and assigned\<close>

lemma index_of_append: "c \<in> set xs \<Longrightarrow> index_of c (xs @ ys) = index_of c xs"
  by (induction xs) auto

lemma index_of_append_right:
  "c \<notin> set xs \<Longrightarrow> index_of c (xs @ ys) = length xs + index_of c ys"
  by (induction xs) auto

lemma index_of_map:
  "(\<And>x. x \<in> set xs \<Longrightarrow> f x = c \<longleftrightarrow> x = c) \<Longrightarrow> index_of c (map f xs) = index_of c xs"
  by (induction xs) auto

lemma nth_filter_zip:
  "c \<in> set cols \<Longrightarrow> P c \<Longrightarrow> length cols \<le> length r \<Longrightarrow>
     map snd (filter (\<lambda>(x, v). P x) (zip cols r)) ! index_of c (filter P cols) =
     r ! index_of c cols"
proof (induction cols arbitrary: r)
  case Nil
  then show ?case by simp
next
  case (Cons x cols)
  then obtain v vs where r: "r = v # vs"
    by (cases r) auto
  with Cons show ?case by auto
qed

lemma length_filter_zip:
  "length cols \<le> length r \<Longrightarrow>
     length (filter (\<lambda>(x, v). P x) (zip cols r)) = length (filter P cols)"
proof (induction cols arbitrary: r)
  case Nil
  then show ?case by simp
next
  case (Cons x cols)
  then obtain v vs where r: "r = v # vs"
    by (cases r) auto
  with Cons show ?case by auto
qed

lemma columns_drop_columns:
  "columns (drop_columns df cs) = filter (\<lambda>c. c \<notin> set cs) (columns df)"
  by (simp add: drop_columns_def columns_def filter_map comp_def case_prod_unfold)

lemma rectangular_drop_columns:
  assumes "rectangular df"
  shows "rectangular (drop_columns df cs)"
proof -
  have "length (filter (\<lambda>(c, v). c \<notin> set cs) (zip (columns df) r)) =
      length (filter (\<lambda>(c, t). c \<notin> set cs) (schema df))"
    if "r \<in> set (rows df)" for r
  proof -
    have "length (columns df) \<le> length r"
      using assms that by (simp add: rectangular_def list_all_iff columns_def)
    from length_filter_zip [OF this, of "\<lambda>c. c \<notin> set cs"]
    have "length (filter (\<lambda>(c, v). c \<notin> set cs) (zip (columns df) r)) =
        length (filter (\<lambda>c. c \<notin> set cs) (columns df))" .
    also have "\<dots> = length (filter (\<lambda>(c, t). c \<notin> set cs) (schema df))"
      by (simp add: columns_def filter_map comp_def case_prod_unfold)
    finally show ?thesis .
  qed
  then show ?thesis
    by (simp add: rectangular_def list_all_iff drop_columns_def)
qed

lemma series_drop_columns:
  assumes "rectangular df" and "c \<in> set (columns df)" and "c \<notin> set cs"
  shows "series (drop_columns df cs) c = series df c"
proof -
  have "map snd (filter (\<lambda>(x, v). x \<notin> set cs) (zip (columns df) r)) !
      index_of c (filter (\<lambda>x. x \<notin> set cs) (columns df)) = r ! index_of c (columns df)"
    if "r \<in> set (rows df)" for r
  proof (rule nth_filter_zip)
    show "length (columns df) \<le> length r"
      using assms(1) that by (simp add: rectangular_def list_all_iff columns_def)
  qed (use assms in auto)
  then show ?thesis
    by (simp add: series_def col_def columns_drop_columns) (simp add: drop_columns_def)
qed

lemma columns_assign:
  "columns (assign df c t f) = (if c \<in> set (columns df) then columns df else columns df @ [c])"
proof (cases "c \<in> set (columns df)")
  case True
  then show ?thesis
    using columns_retyped [OF True, of t] by (simp add: assign_def columns_def)
next
  case False
  then show ?thesis
    by (simp add: assign_def columns_def)
qed

lemma col_assign:
  "c' \<in> set (columns df) \<Longrightarrow> col (assign df c t f) c' = col df c'"
  by (simp add: col_def columns_assign index_of_append)

lemma rectangular_assign: "rectangular df \<Longrightarrow> rectangular (assign df c t f)"
  by (auto simp: rectangular_def list_all_iff assign_def)

lemma series_assign_other:
  assumes "rectangular df" and "c' \<in> set (columns df)" and "c' \<noteq> c"
  shows "series (assign df c t f) c' = series df c'"
proof (cases "c \<in> set (columns df)")
  case True
  have "col df c \<noteq> col df c'"
    using nth_index_of [OF True] nth_index_of [OF assms(2)] assms(3) by (auto simp: col_def)
  then show ?thesis
    unfolding series_def col_assign [OF assms(2)] using True by (simp add: assign_def)
next
  case False
  have "(r @ [f r]) ! col df c' = r ! col df c'" if "r \<in> set (rows df)" for r
    using row_length [OF assms(1) that] col_less [OF assms(2)] by (simp add: nth_append)
  then show ?thesis
    unfolding series_def col_assign [OF assms(2)] using False by (simp add: assign_def)
qed

lemma series_assign_same:
  assumes "rectangular df" and "c \<in> set (columns df)"
  shows "series (assign df c t f) c = map f (rows df)"
proof -
  have "r[col df c := f r] ! col df c = f r" if "r \<in> set (rows df)" for r
    using row_length [OF assms(1) that] col_less [OF assms(2)] by simp
  then show ?thesis
    unfolding series_def col_assign [OF assms(2)] using assms(2) by (simp add: assign_def)
qed

subsection \<open>The stages of the build\<close>

lemma fill_missing_municipalities_Inr:
  assumes "fill_missing_municipalities self = (Inr (), self1)"
  shows "''Municipality_name'' \<in> set (columns (infections_and_mortalities self))"
    and "columns (infections_and_mortalities self1) = columns (infections_and_mortalities self)"
    and "rows (infections_and_mortalities self1) =
      map (fill_municipality (col (infections_and_mortalities self) ''Municipality_name'')
             (col (infections_and_mortalities self) ''Province''))
        (rows (infections_and_mortalities self))"
    and "hospital_admissions self1 = hospital_admissions self"
    and "covid_dataset self1 = covid_dataset self"
proof -
  let ?df = "infections_and_mortalities self"
  from assms show mem: "''Municipality_name'' \<in> set (columns ?df)"
    by (auto simp: fill_missing_municipalities_def Let_def split: if_splits)
  from assms show "columns (infections_and_mortalities self1) = columns ?df"
    using columns_retyped [OF mem]
    by (auto simp: fill_missing_municipalities_def Let_def columns_def split: if_splits)
  from assms show "rows (infections_and_mortalities self1) =
      map (fill_municipality (col ?df ''Municipality_name'') (col ?df ''Province'')) (rows ?df)"
    by (auto simp: fill_missing_municipalities_def Let_def split: if_splits)
  from assms show "hospital_admissions self1 = hospital_admissions self"
    by (auto simp: fill_missing_municipalities_def Let_def split: if_splits)
  from assms show "covid_dataset self1 = covid_dataset self"
    by (auto simp: fill_missing_municipalities_def Let_def split: if_splits)
qed

lemma length_fill_municipality: "length (fill_municipality m p r) = length r"
  by (simp add: fill_municipality_def split: cell.splits)

lemma fill_municipality_cell:
  "fill_municipality m p r ! m = r ! m \<or>
   (\<exists>s. fill_municipality m p r ! m = Str (s @ '' gemeente onbekend''))"
  by (cases "m < length r") (auto simp: fill_municipality_def list_update_beyond split: cell.splits)

lemma drop_intermediary_rows_Inr:
  assumes "drop_intermediary_rows df = Inr dropped"
  shows "schema dropped = schema df"
    and "rows dropped = filter (\<lambda>r. r ! col df ''Municipality_name'' \<noteq> NaN) (rows df)"
  using assms by (auto simp: drop_intermediary_rows_def split: if_splits)

lemma clean_infections_and_mortalities_dataset_Inr:
  assumes "clean_infections_and_mortalities_dataset self = (Inr (), self1)"
  shows "\<exists>filled dropped.
    fill_missing_municipalities self = (Inr (), filled) \<and>
    drop_intermediary_rows (infections_and_mortalities filled) = Inr dropped \<and>
    infections_and_mortalities self1 =
      groupby_sum (drop_columns dropped [''Version'', ''Date_of_report'', ''Municipality_code'',
            ''Security_region_code'', ''Security_region_name'',
            ''Municipal_health_service'', ''ROAZ_region''])
        [''Date_of_publication'', ''Province'', ''Municipality_name''] \<and>
    hospital_admissions self1 = hospital_admissions filled \<and>
    covid_dataset self1 = covid_dataset filled"
  using assms
  by (auto simp: clean_infections_and_mortalities_dataset_def Let_def group_by_def
      split: sum.splits prod.splits if_splits)

lemma clean_hospital_admissions_dataset_Inr:
  assumes "clean_hospital_admissions_dataset self = (Inr (), self1)"
  shows "\<exists>dropped.
    drop_intermediary_rows (hospital_admissions self) = Inr dropped \<and>
    hospital_admissions self1 =
      groupby_sum (drop_columns dropped [''Version'', ''Date_of_report'', ''Municipality_code'',
            ''Security_region_code'', ''Security_region_name'',
            ''Hospital_admission_notification''])
        [''Date_of_publication'', ''Municipality_name''] \<and>
    infections_and_mortalities self1 = infections_and_mortalities self \<and>
    covid_dataset self1 = covid_dataset self"
  using assms
  by (auto simp: clean_hospital_admissions_dataset_def Let_def group_by_def
      split: sum.splits prod.splits if_splits)

lemma clean_covid_dataset_Inr:
  assumes "clean_covid_dataset parse_date self = (Inr (), self1)"
    and "covid_dataset self = Some merged"
  shows "\<exists>filled dated with_year.
    ''Hospital_admission'' \<in> set (columns merged) \<and>
    set MERGE_COLUMNS \<subseteq> set (columns merged) \<and>
    filled = assign merged ''Hospital_admission'' (dtype_of merged ''Hospital_admission'')
               (\<lambda>r. fillna (Num 0) (r ! col merged ''Hospital_admission'')) \<and>
    dated = assign filled ''Date_of_publication'' datetime64
               (\<lambda>r. the (to_datetime parse_date (r ! col filled ''Date_of_publication''))) \<and>
    with_year = assign dated ''Year'' object
               (\<lambda>r. strftime_Y (r ! col dated ''Date_of_publication'')) \<and>
    covid_dataset self1 = Some (assign with_year ''Month'' object
               (\<lambda>r. strftime_B (r ! col with_year ''Date_of_publication''))) \<and>
    infections_and_mortalities self1 = infections_and_mortalities self \<and>
    hospital_admissions self1 = hospital_admissions self"
  using assms
  by (auto simp: clean_covid_dataset_def Let_def group_by_def
      split: sum.splits prod.splits if_splits)

lemma build_covid_dataset_Inr:
  assumes "build_covid_dataset parse_date self = (Inr (), self')"
  shows "\<exists>self1 self2 merged.
    clean_infections_and_mortalities_dataset self = (Inr (), self1) \<and>
    clean_hospital_admissions_dataset self1 = (Inr (), self2) \<and>
    merge_left (infections_and_mortalities self2) (hospital_admissions self2) MERGE_COLUMNS =
      Inr merged \<and>
    clean_covid_dataset parse_date (self2\<lparr> covid_dataset := Some merged \<rparr>) = (Inr (), self')"
  using assms
  by (auto simp: build_covid_dataset_def split: sum.splits prod.splits if_splits)

subsection \<open>Merged frames\<close>

lemma columns_merge_left:
  assumes "merge_left left right on = Inr merged"
  shows "columns merged =
    map (\<lambda>c. if c \<in> set (columns right) \<and> c \<notin> set on then c @ ''_x'' else c) (columns left) @
    map (\<lambda>c. if c \<in> set (columns left) then c @ ''_y'' else c)
      (filter (\<lambda>c. c \<notin> set on) (columns right))"
    and "set on \<subseteq> set (columns left)"
    and "set on \<subseteq> set (columns right)"
proof -
  from assms show sub: "set on \<subseteq> set (columns left)" and "set on \<subseteq> set (columns right)"
    by (auto simp: merge_left_def Let_def split: if_splits)
  have names: "map fst (filter (\<lambda>(c, t). c \<notin> set on) (schema right)) =
      filter (\<lambda>c. c \<notin> set on) (columns right)"
    by (simp add: columns_def filter_map comp_def case_prod_unfold)
  have "map (\<lambda>x. fst (suffixed shared sfx x)) (filter (\<lambda>(c, t). c \<notin> set on) (schema right)) =
      map (\<lambda>c. if c \<in> set shared then c @ sfx else c)
        (map fst (filter (\<lambda>(c, t). c \<notin> set on) (schema right)))" for shared sfx
    by (simp add: suffixed_def case_prod_unfold)
  then have "map (\<lambda>x. fst (suffixed shared sfx x)) (filter (\<lambda>(c, t). c \<notin> set on) (schema right)) =
      map (\<lambda>c. if c \<in> set shared then c @ sfx else c) (filter (\<lambda>c. c \<notin> set on) (columns right))"
    for shared sfx
    unfolding names .
  moreover have "map (\<lambda>x. fst (suffixed shared sfx x)) (schema left) =
      map (\<lambda>c. if c \<in> set shared then c @ sfx else c) (columns left)" for shared sfx
    by (simp add: suffixed_def case_prod_unfold columns_def)
  moreover from assms have "schema merged =
      map (suffixed (filter (\<lambda>c. c \<in> set (columns right) \<and> c \<notin> set on) (columns left)) ''_x'')
        (schema left) @
      map (suffixed (filter (\<lambda>c. c \<in> set (columns right) \<and> c \<notin> set on) (columns left)) ''_y'')
        (filter (\<lambda>(c, t). c \<notin> set on) (schema right))"
    by (auto simp: merge_left_def Let_def split: if_splits)
  ultimately have "columns merged =
      map (\<lambda>c. if c \<in> set (filter (\<lambda>c. c \<in> set (columns right) \<and> c \<notin> set on) (columns left))
                then c @ ''_x'' else c) (columns left) @
      map (\<lambda>c. if c \<in> set (filter (\<lambda>c. c \<in> set (columns right) \<and> c \<notin> set on) (columns left))
                then c @ ''_y'' else c) (filter (\<lambda>c. c \<notin> set on) (columns right))"
    by (simp add: columns_def [of merged] comp_def)
  also have "map (\<lambda>c. if c \<in> set (filter (\<lambda>c. c \<in> set (columns right) \<and> c \<notin> set on) (columns left))
                then c @ ''_x'' else c) (columns left) =
      map (\<lambda>c. if c \<in> set (columns right) \<and> c \<notin> set on then c @ ''_x'' else c) (columns left)"
    by (rule map_cong) auto
  also have "map (\<lambda>c. if c \<in> set (filter (\<lambda>c. c \<in> set (columns right) \<and> c \<notin> set on) (columns left))
                then c @ ''_y'' else c) (filter (\<lambda>c. c \<notin> set on) (columns right)) =
      map (\<lambda>c. if c \<in> set (columns left) then c @ ''_y'' else c)
        (filter (\<lambda>c. c \<notin> set on) (columns right))"
    by (rule map_cong) auto
  finally show "columns merged =
    map (\<lambda>c. if c \<in> set (columns right) \<and> c \<notin> set on then c @ ''_x'' else c) (columns left) @
    map (\<lambda>c. if c \<in> set (columns left) then c @ ''_y'' else c)
      (filter (\<lambda>c. c \<notin> set on) (columns right))" .
qed

lemma not_suffixed:
  "x @ ''_x'' \<noteq> ''Municipality_name''" "x @ ''_y'' \<noteq> ''Municipality_name''"
  "x @ ''_x'' \<noteq> ''Date_of_publication''" "x @ ''_y'' \<noteq> ''Date_of_publication''"
  "x @ ''_x'' \<noteq> ''Hospital_admission''" "x @ ''_y'' \<noteq> ''Hospital_admission''"
proof -
  have "last (x @ [a, b]) = b" for a b :: char
    by simp
  then have "b \<noteq> last s \<Longrightarrow> x @ [a, b] \<noteq> s" for a b :: char and s
    by metis
  then show "x @ ''_x'' \<noteq> ''Municipality_name''" "x @ ''_y'' \<noteq> ''Municipality_name''"
    "x @ ''_x'' \<noteq> ''Date_of_publication''" "x @ ''_y'' \<noteq> ''Date_of_publication''"
    "x @ ''_x'' \<noteq> ''Hospital_admission''" "x @ ''_y'' \<noteq> ''Hospital_admission''"
    by simp_all
qed

lemma rectangular_merge_left:
  assumes ok: "merge_left left right on = Inr merged"
    and "rectangular left" and "rectangular right"
  shows "rectangular merged"
proof -
  have rest: "length (rest_of right on r) = length (filter (\<lambda>(c, t). c \<notin> set on) (schema right))"
    if "r \<in> set (rows right)" for r
  proof -
    have "length (columns right) \<le> length r"
      using assms(3) that by (simp add: rectangular_def list_all_iff columns_def)
    from length_filter_zip [OF this, of "\<lambda>c. c \<notin> set on"]
    show ?thesis
      by (simp add: rest_of_def columns_def filter_map comp_def case_prod_unfold)
  qed
  have "length row = length (schema merged)" if "row \<in> set (rows merged)" for row
  proof -
    from ok that obtain l where l: "l \<in> set (rows left)"
      and row: "row \<in> set (case filter (\<lambda>r. key_of (map (col right) on) r =
                   key_of (map (col left) on) l) (rows right) of
          [] \<Rightarrow> [l @ replicate (length (filter (\<lambda>(c, t). c \<notin> set on) (schema right))) NaN]
        | ms \<Rightarrow> map (\<lambda>r. l @ rest_of right on r) ms)"
      by (auto simp: merge_left_def Let_def split: if_splits)
    have len: "length (schema merged) =
        length (schema left) + length (filter (\<lambda>(c, t). c \<notin> set on) (schema right))"
      using ok by (auto simp: merge_left_def Let_def split: if_splits)
    have ll: "length l = length (schema left)"
      using row_length [OF assms(2) l] .
    show ?thesis
    proof (cases "filter (\<lambda>r. key_of (map (col right) on) r = key_of (map (col left) on) l)
        (rows right)")
      case Nil
      with row show ?thesis by (simp add: len ll)
    next
      case (Cons a ms)
      with row obtain r where "r \<in> set (a # ms)" and "row = l @ rest_of right on r"
        by auto
      moreover from this Cons have "r \<in> set (rows right)"
        by (metis filter_is_subset subsetD)
      ultimately show ?thesis
        by (simp add: len ll rest)
    qed
  qed
  then show ?thesis
    by (simp add: rectangular_def list_all_iff)
qed

lemma series_merge_left_key:
  assumes ok: "merge_left left right on = Inr merged"
    and uniq: "distinct (map (key_of (map (col right) on)) (rows right))"
    and rect: "rectangular left"
    and key: "c \<in> set on" and plain: "\<And>x. x @ ''_x'' \<noteq> c"
  shows "series merged c = series left c" and "c \<in> set (columns merged)"
proof -
  note cols = columns_merge_left [OF ok]
  have mem: "c \<in> set (columns left)"
    using cols(2) key by auto
  let ?sfx = "\<lambda>c. if c \<in> set (columns right) \<and> c \<notin> set on then c @ ''_x'' else c"
  have same: "index_of c (map ?sfx (columns left)) = index_of c (columns left)"
    by (rule index_of_map) (use key plain in auto)
  have in_left: "c \<in> set (map ?sfx (columns left))"
    using mem key by force
  then show "c \<in> set (columns merged)"
    unfolding cols(1) by simp
  have colm: "col merged c = col left c"
    unfolding col_def cols(1) using in_left by (simp add: index_of_append same)
  have "(l @ tl) ! col left c = l ! col left c" if "l \<in> set (rows left)" for l tl
    using row_length [OF rect that] col_less [OF mem] by (simp add: nth_append)
  then show "series merged c = series left c"
    unfolding series_def colm rows_merge_left [OF ok uniq] by simp
qed

lemma series_merge_left_right:
  assumes ok: "merge_left left right on = Inr merged"
    and uniq: "distinct (map (key_of (map (col right) on)) (rows right))"
    and rect: "rectangular left" "rectangular right"
    and right: "c \<in> set (columns right)" "c \<notin> set on" "c \<notin> set (columns left)"
    and plain: "\<And>x. x @ ''_x'' \<noteq> c" "\<And>x. x @ ''_y'' \<noteq> c"
  shows "series merged c = map (\<lambda>l.
      case filter (\<lambda>r. key_of (map (col right) on) r = key_of (map (col left) on) l)
             (rows right) of
        [] \<Rightarrow> NaN
      | a # _ \<Rightarrow> a ! col right c) (rows left)"
proof -
  note cols = columns_merge_left [OF ok]
  let ?sfx = "\<lambda>c. if c \<in> set (columns right) \<and> c \<notin> set on then c @ ''_x'' else c"
  let ?sfy = "\<lambda>c. if c \<in> set (columns left) then c @ ''_y'' else c"
  let ?others = "filter (\<lambda>c. c \<notin> set on) (columns right)"
  have other: "c \<in> set ?others"
    using right by simp
  have "c \<notin> set (map ?sfx (columns left))"
    using right(3) plain(1) by auto
  then have "col merged c = length (columns left) + index_of c (map ?sfy ?others)"
    unfolding col_def cols(1) by (simp add: index_of_append_right)
  also have "index_of c (map ?sfy ?others) = index_of c ?others"
    by (rule index_of_map) (use right(3) plain(2) in auto)
  finally have colm: "col merged c = length (schema left) + index_of c ?others"
    by (simp add: columns_def)
  have n: "length (filter (\<lambda>(c, t). c \<notin> set on) (schema right)) = length ?others"
    by (simp add: columns_def filter_map comp_def case_prod_unfold)
  have cell: "(l @ (case filter (\<lambda>r. key_of (map (col right) on) r = k) (rows right) of
             [] \<Rightarrow> replicate (length (filter (\<lambda>(c, t). c \<notin> set on) (schema right))) NaN
           | a # _ \<Rightarrow> rest_of right on a)) ! (length (schema left) + index_of c ?others) =
      (case filter (\<lambda>r. key_of (map (col right) on) r = k) (rows right) of
        [] \<Rightarrow> NaN | a # _ \<Rightarrow> a ! col right c)"
    if l: "l \<in> set (rows left)" for l k
  proof (cases "filter (\<lambda>r. key_of (map (col right) on) r = k) (rows right)")
    case Nil
    then show ?thesis
      using row_length [OF rect(1) l] index_of_less [OF other] by (simp add: n nth_append)
  next
    case (Cons a ms)
    then have "a \<in> set (rows right)"
      by (metis filter_is_subset list.set_intros(1) subsetD)
    then have "length (columns right) \<le> length a"
      using rect(2) by (simp add: rectangular_def list_all_iff columns_def)
    from nth_filter_zip [OF right(1) _ this, of "\<lambda>c. c \<notin> set on"] right(2)
    have "rest_of right on a ! index_of c ?others = a ! col right c"
      by (simp add: rest_of_def col_def)
    then show ?thesis
      using Cons row_length [OF rect(1) l] by (simp add: nth_append)
  qed
  show ?thesis
    unfolding series_def colm rows_merge_left [OF ok uniq] by (simp add: cell)
qed

subsection \<open>The names of the cleaned case table\<close>

lemma series_groupby_sum_key:
  assumes "c \<in> set by"
  shows "set (series (groupby_sum df by) c) \<subseteq> set (series df c) - {NaN}"
proof
  fix x
  assume "x \<in> set (series (groupby_sum df by) c)"
  then obtain row where row: "row \<in> set (rows (groupby_sum df by))"
    and x: "x = row ! col (groupby_sum df by) c"
    by (auto simp: series_def)
  from rows_groupby_sum [OF row] obtain r sums where r: "r \<in> set (rows df)"
    and live: "NaN \<notin> set (key_of (map (col df) by) r)"
    and split: "row = key_of (map (col df) by) r @ sums"
    by blast
  let ?i = "index_of c by"
  have i: "?i < length by"
    using assms by (rule index_of_less)
  have "col (groupby_sum df by) c = ?i"
    by (simp add: col_def columns_groupby_sum index_of_append assms)
  then have "x = key_of (map (col df) by) r ! ?i"
    using x split i by (simp add: nth_append length_key_of)
  moreover have "key_of (map (col df) by) r ! ?i = r ! col df c"
    using i nth_index_of [OF assms] by (simp add: key_of_def)
  moreover have "key_of (map (col df) by) r ! ?i \<in> set (key_of (map (col df) by) r)"
    using i by (simp add: length_key_of)
  ultimately show "x \<in> set (series df c) - {NaN}"
    using live r by (auto simp: series_def)
qed

lemma series_groupby_sum_value:
  assumes "c \<in> set (value_columns df by)"
    and "x \<in> set (series (groupby_sum df by) c)"
  shows "\<exists>n. x = Num n"
proof -
  from assms(2) obtain row where row: "row \<in> set (rows (groupby_sum df by))"
    and x: "x = row ! col (groupby_sum df by) c"
    by (auto simp: series_def)
  have "c \<notin> set by"
    using assms(1) by (auto simp: value_columns_def)
  then have colc: "col (groupby_sum df by) c = length by + index_of c (value_columns df by)"
    by (simp add: col_def columns_groupby_sum index_of_append_right)
  from row obtain k where "length k = length by"
    and "row = k @ map (\<lambda>v. Num (sum_skipna (map (\<lambda>r. r ! v)
        (filter (\<lambda>r. key_of (map (col df) by) r = k)
           (filter (\<lambda>r. NaN \<notin> set (key_of (map (col df) by) r)) (rows df))))))
        (map (col df) (value_columns df by))"
    by (auto simp: groupby_sum_def Let_def length_key_of)
  then show ?thesis
    using x colc index_of_less [OF assms(1)] by (simp add: nth_append)
qed

lemma rectangular_filled:
  assumes "fill_missing_municipalities self = (Inr (), self1)"
    and "rectangular (infections_and_mortalities self)"
  shows "rectangular (infections_and_mortalities self1)"
proof -
  note f = fill_missing_municipalities_Inr [OF assms(1)]
  have "length (schema (infections_and_mortalities self1)) =
      length (schema (infections_and_mortalities self))"
    using f(2) by (metis columns_def length_map)
  then show ?thesis
    using assms(2) by (simp add: rectangular_def list_all_iff f(3) length_fill_municipality)
qed

lemma cleaned_case_names:
  assumes clean: "clean_infections_and_mortalities_dataset self = (Inr (), self1)"
    and rect: "rectangular (infections_and_mortalities self)"
    and x: "x \<in> set (series (infections_and_mortalities self1) ''Municipality_name'')"
  shows "x \<noteq> NaN \<and>
    (x \<in> set (series (infections_and_mortalities self) ''Municipality_name'') \<or>
     (\<exists>s. x = Str (s @ '' gemeente onbekend'')))"
proof -
  let ?M = "''Municipality_name''"
  let ?cs = "[''Version'', ''Date_of_report'', ''Municipality_code'',
    ''Security_region_code'', ''Security_region_name'', ''Municipal_health_service'',
    ''ROAZ_region'']"
  from clean_infections_and_mortalities_dataset_Inr [OF clean]
  obtain filled dropped where fill: "fill_missing_municipalities self = (Inr (), filled)"
    and drop: "drop_intermediary_rows (infections_and_mortalities filled) = Inr dropped"
    and grouped: "infections_and_mortalities self1 =
      groupby_sum (drop_columns dropped ?cs) [''Date_of_publication'', ''Province'', ?M]"
    by blast
  note f = fill_missing_municipalities_Inr [OF fill]
  note d = drop_intermediary_rows_Inr [OF drop]
  let ?raw = "infections_and_mortalities self"
  let ?ft = "infections_and_mortalities filled"
  have rect_d: "rectangular dropped"
    using rectangular_filled [OF fill rect] by (simp add: rectangular_def list_all_iff d)
  have cols_d: "columns dropped = columns ?raw"
    using f(2) by (simp add: columns_def d(1))
  have "set (series (groupby_sum (drop_columns dropped ?cs)
        [''Date_of_publication'', ''Province'', ?M]) ?M) \<subseteq>
      set (series (drop_columns dropped ?cs) ?M) - {NaN}"
    by (rule series_groupby_sum_key) simp
  with x have "x \<in> set (series (drop_columns dropped ?cs) ?M) - {NaN}"
    unfolding grouped by blast
  then have "x \<noteq> NaN" and "x \<in> set (series dropped ?M)"
    using series_drop_columns [OF rect_d, of ?M ?cs] f(1) by (simp_all add: cols_d)
  then have "x \<in> set (series ?ft ?M)"
    by (auto simp: series_def d col_def columns_def)
  then obtain r where r: "r \<in> set (rows ?raw)"
    and "x = fill_municipality (col ?raw ?M) (col ?raw ''Province'') r ! col ?raw ?M"
    by (auto simp: series_def f(3) col_def f(2))
  with fill_municipality_cell [of "col ?raw ?M" "col ?raw ''Province''" r]
  have "x \<in> set (series ?raw ?M) \<or> (\<exists>s. x = Str (s @ '' gemeente onbekend''))"
    by (auto simp: series_def)
  with \<open>x \<noteq> NaN\<close> show ?thesis ..
qed

subsection \<open>The columns of the built dataset\<close>

lemma index_of_nth: "distinct xs \<Longrightarrow> i < length xs \<Longrightarrow> index_of (xs ! i) xs = i"
proof (induction xs arbitrary: i)
  case Nil
  then show ?case by simp
next
  case (Cons x xs)
  then show ?case by (cases i) auto
qed

lemma key_of_group_row:
  assumes "distinct by" and "length k = length by"
  shows "key_of (map (col (groupby_sum df by)) by) (k @ sums) = k"
proof (rule nth_equalityI)
  show "length (key_of (map (col (groupby_sum df by)) by) (k @ sums)) = length k"
    using assms(2) by (simp add: length_key_of)
next
  fix i
  assume "i < length (key_of (map (col (groupby_sum df by)) by) (k @ sums))"
  then have i: "i < length by"
    by (simp add: length_key_of)
  then have "col (groupby_sum df by) (by ! i) = i"
    using index_of_nth [OF assms(1) i]
    by (simp add: col_def columns_groupby_sum index_of_append)
  then show "key_of (map (col (groupby_sum df by)) by) (k @ sums) ! i = k ! i"
    using i assms(2) by (simp add: key_of_def nth_append)
qed

lemma group_keys_are_prefixes:
  assumes "distinct by"
  shows "map (key_of (map (col (groupby_sum df by)) by)) (rows (groupby_sum df by)) =
    map (take (length by)) (rows (groupby_sum df by))"
proof (rule map_cong [OF refl])
  fix row
  assume "row \<in> set (rows (groupby_sum df by))"
  from rows_groupby_sum [OF this] obtain r sums
    where row: "row = key_of (map (col df) by) r @ sums"
    by blast
  have len: "length (key_of (map (col df) by) r) = length by"
    by (simp add: length_key_of)
  show "key_of (map (col (groupby_sum df by)) by) row = take (length by) row"
    unfolding row key_of_group_row [OF assms len] using len by simp
qed

lemma group_keys_unique:
  assumes "distinct by"
  shows "distinct (map (key_of (map (col (groupby_sum df by)) by)) (rows (groupby_sum df by)))"
  unfolding group_keys_are_prefixes [OF assms] by (rule group_keys_distinct)

lemma fillna_Num: "fillna v (Num n) = Num n"
  by (simp add: fillna_def)

lemma built_series:
  assumes build: "build_covid_dataset parse_date self = (Inr (), self')"
  shows "\<exists>self1 built.
    clean_infections_and_mortalities_dataset self = (Inr (), self1) \<and>
    infections_and_mortalities self' = infections_and_mortalities self1 \<and>
    covid_dataset self' = Some built \<and>
    series built ''Municipality_name'' =
      series (infections_and_mortalities self') ''Municipality_name'' \<and>
    series built ''Date_of_publication'' =
      map (\<lambda>c. the (to_datetime parse_date c))
        (series (infections_and_mortalities self') ''Date_of_publication'') \<and>
    (''Hospital_admission'' \<in> set (columns (hospital_admissions self')) \<longrightarrow>
      series built ''Hospital_admission'' =
        map (\<lambda>l. case filter (\<lambda>a. key_of (map (col (hospital_admissions self')) MERGE_COLUMNS) a =
                      key_of (map (col (infections_and_mortalities self')) MERGE_COLUMNS) l)
                    (rows (hospital_admissions self')) of
               [] \<Rightarrow> Num 0
             | a # _ \<Rightarrow> a ! col (hospital_admissions self') ''Hospital_admission'')
          (rows (infections_and_mortalities self'))) \<and>
    distinct (map (key_of (map (col (hospital_admissions self')) MERGE_COLUMNS))
      (rows (hospital_admissions self')))"
proof -
  let ?M = "''Municipality_name''" and ?D = "''Date_of_publication''"
    and ?H = "''Hospital_admission''"
  from build_covid_dataset_Inr [OF build] obtain self1 self2 merged
    where cim: "clean_infections_and_mortalities_dataset self = (Inr (), self1)"
      and cha: "clean_hospital_admissions_dataset self1 = (Inr (), self2)"
      and mg: "merge_left (infections_and_mortalities self2) (hospital_admissions self2)
                 MERGE_COLUMNS = Inr merged"
      and cc: "clean_covid_dataset parse_date (self2\<lparr> covid_dataset := Some merged \<rparr>) =
                 (Inr (), self')"
    by blast
  from clean_infections_and_mortalities_dataset_Inr [OF cim] obtain keptc
    where case1: "infections_and_mortalities self1 =
      groupby_sum keptc [?D, ''Province'', ?M]"
    by blast
  from clean_hospital_admissions_dataset_Inr [OF cha] obtain kepta
    where adm2: "hospital_admissions self2 = groupby_sum kepta [?D, ?M]"
      and case2: "infections_and_mortalities self2 = infections_and_mortalities self1"
    by blast
  from clean_covid_dataset_Inr [OF cc, of merged] obtain filled dated with_year
    where hm: "?H \<in> set (columns merged)"
      and filled: "filled = assign merged ?H (dtype_of merged ?H)
               (\<lambda>r. fillna (Num 0) (r ! col merged ?H))"
      and dated: "dated = assign filled ?D datetime64
               (\<lambda>r. the (to_datetime parse_date (r ! col filled ?D)))"
      and with_year: "with_year = assign dated ''Year'' object
               (\<lambda>r. strftime_Y (r ! col dated ?D))"
      and built: "covid_dataset self' = Some (assign with_year ''Month'' object
               (\<lambda>r. strftime_B (r ! col with_year ?D)))"
      and case': "infections_and_mortalities self' = infections_and_mortalities self2"
      and adm': "hospital_admissions self' = hospital_admissions self2"
    by auto
  let ?case = "infections_and_mortalities self'" and ?adm = "hospital_admissions self'"
  let ?built = "assign with_year ''Month'' object (\<lambda>r. strftime_B (r ! col with_year ?D))"
  have caseT: "?case = groupby_sum keptc [?D, ''Province'', ?M]"
    by (simp add: case' case2 case1)
  have admT: "?adm = groupby_sum kepta [?D, ?M]"
    by (simp add: adm' adm2)
  have mg': "merge_left ?case ?adm MERGE_COLUMNS = Inr merged"
    using mg by (simp add: case' adm')
  have rc: "rectangular ?case" and ra: "rectangular ?adm"
    by (simp_all add: caseT admT rectangular_groupby_sum)
  have uniq: "distinct (map (key_of (map (col ?adm) MERGE_COLUMNS)) (rows ?adm))"
    unfolding admT MERGE_COLUMNS_def by (rule group_keys_unique) simp
  have rm: "rectangular merged"
    using rectangular_merge_left [OF mg' rc ra] .
  have m_merged: "series merged ?M = series ?case ?M" "?M \<in> set (columns merged)"
    using series_merge_left_key [OF mg' uniq rc, of ?M]
    by (simp_all add: MERGE_COLUMNS_def not_suffixed)
  have d_merged: "series merged ?D = series ?case ?D" "?D \<in> set (columns merged)"
    using series_merge_left_key [OF mg' uniq rc, of ?D]
    by (simp_all add: MERGE_COLUMNS_def not_suffixed)
  \<comment> \<open>the four assignments\<close>
  have rf: "rectangular filled"
    unfolding filled using rm by (rule rectangular_assign)
  have cf: "columns filled = columns merged"
    unfolding filled using hm by (simp add: columns_assign)
  have m_filled: "series filled ?M = series merged ?M"
    unfolding filled using rm m_merged(2) by (rule series_assign_other) simp
  have d_filled: "series filled ?D = series merged ?D"
    unfolding filled using rm d_merged(2) by (rule series_assign_other) simp
  have h_filled: "series filled ?H = map (fillna (Num 0)) (series merged ?H)"
    unfolding filled series_assign_same [OF rm hm] by (simp add: series_def)
  have rd: "rectangular dated"
    unfolding dated using rf by (rule rectangular_assign)
  have cd: "columns dated = columns merged"
    unfolding dated using d_merged(2) by (simp add: columns_assign cf)
  have m_dated: "series dated ?M = series merged ?M"
    unfolding dated m_filled [symmetric]
    using rf by (rule series_assign_other) (simp_all add: cf m_merged(2))
  have h_dated: "series dated ?H = series filled ?H"
    unfolding dated using rf by (rule series_assign_other) (simp_all add: cf hm)
  have d_dated: "series dated ?D = map (\<lambda>c. the (to_datetime parse_date c)) (series merged ?D)"
    unfolding dated d_filled [symmetric]
    using series_assign_same [OF rf, of ?D] d_merged(2) by (simp add: cf series_def)
  have ry: "rectangular with_year"
    unfolding with_year using rd by (rule rectangular_assign)
  have in_y: "c \<in> set (columns with_year)" if "c \<in> set (columns merged)" for c
    unfolding with_year using that by (simp add: columns_assign cd)
  have y: "series with_year c = series dated c"
    if "c \<in> set (columns merged)" "c \<noteq> ''Year''" for c
    unfolding with_year using rd by (rule series_assign_other) (simp_all add: cd that)
  have b: "series ?built c = series with_year c"
    if "c \<in> set (columns merged)" "c \<noteq> ''Month''" for c
    using ry by (rule series_assign_other) (simp_all add: in_y that)
  have m_built: "series ?built ?M = series ?case ?M"
    using b [of ?M] y [of ?M] m_merged by (simp add: m_dated)
  have d_built: "series ?built ?D =
      map (\<lambda>c. the (to_datetime parse_date c)) (series ?case ?D)"
    using b [of ?D] y [of ?D] d_merged by (simp add: d_dated)
  have h_built: "series ?built ?H = map (fillna (Num 0)) (series merged ?H)"
    using b [of ?H] y [of ?H] hm by (simp add: h_dated h_filled)
  have h_adm: "series ?built ?H =
        map (\<lambda>l. case filter (\<lambda>a. key_of (map (col ?adm) MERGE_COLUMNS) a =
                      key_of (map (col ?case) MERGE_COLUMNS) l) (rows ?adm) of
               [] \<Rightarrow> Num 0
             | a # _ \<Rightarrow> a ! col ?adm ?H) (rows ?case)"
    if ha: "?H \<in> set (columns ?adm)"
  proof -
    note cols = columns_merge_left [OF mg']
    have not_case: "?H \<notin> set (columns ?case)"
    proof
      assume hc: "?H \<in> set (columns ?case)"
      from hm show False
        unfolding cols(1) using hc ha by (auto simp: MERGE_COLUMNS_def not_suffixed)
    qed
    have valcol: "?H \<in> set (value_columns kepta [?D, ?M])"
      using ha by (simp add: admT columns_groupby_sum)
    have num: "\<exists>n. a ! col ?adm ?H = Num n" if "a \<in> set (rows ?adm)" for a
      using series_groupby_sum_value [OF valcol, of "a ! col ?adm ?H"] that
      by (auto simp: series_def admT)
    have "series merged ?H = map (\<lambda>l.
        case filter (\<lambda>a. key_of (map (col ?adm) MERGE_COLUMNS) a =
               key_of (map (col ?case) MERGE_COLUMNS) l) (rows ?adm) of
          [] \<Rightarrow> NaN
        | a # _ \<Rightarrow> a ! col ?adm ?H) (rows ?case)"
      using series_merge_left_right [OF mg' uniq rc ra ha _ not_case]
      by (simp add: MERGE_COLUMNS_def not_suffixed)
    moreover have "fillna (Num 0) (case ms of [] \<Rightarrow> NaN | a # _ \<Rightarrow> a ! col ?adm ?H) =
        (case ms of [] \<Rightarrow> Num 0 | a # _ \<Rightarrow> a ! col ?adm ?H)"
      if "set ms \<subseteq> set (rows ?adm)" for ms
    proof (cases ms)
      case Nil
      then show ?thesis by (simp add: fillna_def)
    next
      case (Cons a list)
      with that num [of a] show ?thesis by (auto simp: fillna_Num)
    qed
    ultimately show ?thesis
      unfolding h_built by (simp add: comp_def)
  qed
  show ?thesis
    using cim built m_built d_built h_adm uniq by (auto simp: case' case2)
qed

subsection \<open>The build on the example tables\<close>

lemma build_cases_example:
  "build_covid_dataset iso_date (provider cases_example admissions_example) =
    (Inr (),
     \<lparr> infections_and_mortalities =
         \<lparr> schema = [(''Date_of_publication'', object), (''Province'', object),
              (''Municipality_name'', object), (''Total_reported'', numeric),
              (''Deceased'', numeric)],
           rows = [[Str ''2021-01-01'', Str ''Limburg'', Str ''Bergen'', Num 7, Num 1],
                   [Str ''2021-01-02'', Str ''Utrecht'', Str ''Utrecht'', Num 10, Num 1],
                   [Str ''2021-01-02'', Str ''Utrecht'', Str ''Utrecht gemeente onbekend'',
                    Num 5, Num 0]] \<rparr>,
       hospital_admissions =
         \<lparr> schema = [(''Date_of_publication'', object), (''Municipality_name'', object),
              (''Hospital_admission'', numeric)],
           rows = [[Str ''2021-01-01'', Str ''Bergen'', Num 3],
                   [Str ''2021-01-03'', Str ''Utrecht'', Num 1]] \<rparr>,
       covid_dataset = Some
         \<lparr> schema = [(''Date_of_publication'', datetime64), (''Province'', object),
              (''Municipality_name'', object), (''Total_reported'', numeric),
              (''Deceased'', numeric), (''Hospital_admission'', numeric),
              (''Year'', object), (''Month'', object)],
           rows = [[Datetime 18628, Str ''Limburg'', Str ''Bergen'', Num 7, Num 1, Num 3,
                    Str ''2021'', Str ''January''],
                   [Datetime 18629, Str ''Utrecht'', Str ''Utrecht'', Num 10, Num 1, Num 0,
                    Str ''2021'', Str ''January''],
                   [Datetime 18629, Str ''Utrecht'', Str ''Utrecht gemeente onbekend'',
                    Num 5, Num 0, Num 0, Str ''2021'', Str ''January'']] \<rparr> \<rparr>)"
  by code_simp

lemma build_same_name_example:
  "build_covid_dataset iso_date (provider same_name_example admissions_example) =
    (Inr (),
     \<lparr> infections_and_mortalities =
         \<lparr> schema = [(''Date_of_publication'', object), (''Province'', object),
              (''Municipality_name'', object), (''Total_reported'', numeric),
              (''Deceased'', numeric)],
           rows = [[Str ''2021-01-01'', Str ''Limburg'', Str ''Bergen'', Num 3, Num 0],
                   [Str ''2021-01-01'', Str ''Noord-Holland'', Str ''Bergen'', Num 4, Num 1]] \<rparr>,
       hospital_admissions =
         \<lparr> schema = [(''Date_of_publication'', object), (''Municipality_name'', object),
              (''Hospital_admission'', numeric)],
           rows = [[Str ''2021-01-01'', Str ''Bergen'', Num 3],
                   [Str ''2021-01-03'', Str ''Utrecht'', Num 1]] \<rparr>,
       covid_dataset = Some
         \<lparr> schema = [(''Date_of_publication'', datetime64), (''Province'', object),
              (''Municipality_name'', object), (''Total_reported'', numeric),
              (''Deceased'', numeric), (''Hospital_admission'', numeric),
              (''Year'', object), (''Month'', object)],
           rows = [[Datetime 18628, Str ''Limburg'', Str ''Bergen'', Num 3, Num 0, Num 3,
                    Str ''2021'', Str ''January''],
                   [Datetime 18628, Str ''Noord-Holland'', Str ''Bergen'', Num 4, Num 1, Num 3,
                    Str ''2021'', Str ''January'']] \<rparr> \<rparr>)"
  by code_simp

subsection \<open>The built dataset\<close>

text \<open>
  C5. When the build returns, every row of the built dataset has a municipality name:
  none is missing, and none is the empty string provided that the raw case table, which
  is rectangular, holds no empty string as a municipality name (\<open>read_csv\<close> reads an
  empty field as missing, never as an empty string).
\<close>

theorem built_municipalities_named:
  assumes build: "build_covid_dataset parse_date self = (Inr (), self')"
    and rect: "rectangular (infections_and_mortalities self)"
    and named: "Str [] \<notin> set (series (infections_and_mortalities self) ''Municipality_name'')"
  shows "\<exists>built. covid_dataset self' = Some built \<and>
    NaN \<notin> set (series built ''Municipality_name'') \<and>
    Str [] \<notin> set (series built ''Municipality_name'')"
proof -
  from built_series [OF build] obtain self1 built
    where clean: "clean_infections_and_mortalities_dataset self = (Inr (), self1)"
      and same: "infections_and_mortalities self' = infections_and_mortalities self1"
      and built: "covid_dataset self' = Some built"
      and names: "series built ''Municipality_name'' =
        series (infections_and_mortalities self') ''Municipality_name''"
    by blast
  have "x \<noteq> NaN \<and> x \<noteq> Str []" if "x \<in> set (series built ''Municipality_name'')" for x
    using cleaned_case_names [OF clean rect, of x] that named by (auto simp: names same)
  with built show ?thesis
    by blast
qed

theorem built_municipalities_named_witness:
  "rectangular cases_example \<and>
   Str [] \<notin> set (series cases_example ''Municipality_name'') \<and>
   (\<exists>self' built.
      build_covid_dataset iso_date (provider cases_example admissions_example) = (Inr (), self') \<and>
      covid_dataset self' = Some built \<and>
      series built ''Municipality_name'' =
        [Str ''Bergen'', Str ''Utrecht'', Str ''Utrecht gemeente onbekend''] \<and>
      NaN \<notin> set (series built ''Municipality_name'') \<and>
      Str [] \<notin> set (series built ''Municipality_name''))"
proof -
  define self' where "self' = snd (build_covid_dataset iso_date
    (provider cases_example admissions_example))"
  have build: "build_covid_dataset iso_date (provider cases_example admissions_example) =
      (Inr (), self')"
    by (simp add: self'_def build_cases_example)
  have raw: "infections_and_mortalities (provider cases_example admissions_example) =
      cases_example"
    by (simp add: provider_def)
  have rect: "rectangular cases_example"
    by (simp add: cases_example_def case_header_def case_row_def rectangular_def)
  have named: "Str [] \<notin> set (series cases_example ''Municipality_name'')"
    by (simp add: cases_example_def case_header_def case_row_def series_def col_def columns_def)
  from built_municipalities_named [OF build, unfolded raw, OF rect named]
  obtain built where built: "covid_dataset self' = Some built"
    and free: "NaN \<notin> set (series built ''Municipality_name'')"
      "Str [] \<notin> set (series built ''Municipality_name'')"
    by blast
  from built have "series built ''Municipality_name'' =
      [Str ''Bergen'', Str ''Utrecht'', Str ''Utrecht gemeente onbekend'']"
    by (auto simp: self'_def build_cases_example series_def col_def columns_def)
  with build built free have "\<exists>self' built.
      build_covid_dataset iso_date (provider cases_example admissions_example) = (Inr (), self') \<and>
      covid_dataset self' = Some built \<and>
      series built ''Municipality_name'' =
        [Str ''Bergen'', Str ''Utrecht'', Str ''Utrecht gemeente onbekend''] \<and>
      NaN \<notin> set (series built ''Municipality_name'') \<and>
      Str [] \<notin> set (series built ''Municipality_name'')"
    by (intro exI [of _ self'] exI [of _ built] conjI)
  with rect named show ?thesis
    by (intro conjI)
qed




text \<open>
  C4. \<open>_clean_covid_dataset\<close> calls \<open>group_by\<close> on the merged dataset by the merge
  columns and does not keep the frame it returns, so the built dataset is not regrouped:
  on \<open>same_name_example\<close> the build returns and the built dataset has two rows with
  the key (2021-01-01, Bergen).
\<close>

theorem regrouping_has_no_effect:
  "fst (build_covid_dataset iso_date (provider same_name_example admissions_example)) = Inr () \<and>
   (case covid_dataset (snd (build_covid_dataset iso_date
           (provider same_name_example admissions_example))) of
      None \<Rightarrow> False
    | Some built \<Rightarrow>
        zip (series built ''Date_of_publication'') (series built ''Municipality_name'') =
          [(Datetime 18628, Str ''Bergen''), (Datetime 18628, Str ''Bergen'')])"
  by (simp add: build_same_name_example series_def col_def columns_def)

subsection \<open>The daily series\<close>

lemma last_upto: "i \<le> j \<Longrightarrow> last [i..j] = j"
  by (simp add: upto_rec2)

lemma in_map_filter: "y \<in> set (List.map_filter f xs) \<Longrightarrow> \<exists>x \<in> set xs. f x = Some y"
  by (induction xs) (auto split: option.splits)

lemma indexed_row:
  "(case r of Datetime d # vs \<Rightarrow> Some (d, vs) | _ \<Rightarrow> None) = Some (d', vs') \<Longrightarrow>
     r = Datetime d' # vs'"
  by (auto split: list.splits cell.splits)

lemma get_covid_time_series_Inr:
  assumes "get_covid_time_series dataset = Inr df"
  shows "\<exists>first last_day. first \<le> last_day \<and> map fst (ts_rows df) = [first..last_day]"
    and "\<And>d r. (d, r) \<in> set (ts_rows df) \<Longrightarrow> length r = length (ts_schema df)"
proof -
  define grouped where g: "grouped = groupby_sum dataset [''Date_of_publication'']"
  define indexed where "indexed = List.map_filter
    (\<lambda>r. case r of Datetime d # vs \<Rightarrow> Some (d, vs) | _ \<Rightarrow> None) (rows grouped)"
  have mem: "''Date_of_publication'' \<in> set (columns dataset)"
    using assms by (auto simp: get_covid_time_series_def group_by_def split: if_splits)
  have typed: "dtype_of grouped ''Date_of_publication'' = datetime64"
    using assms mem by (auto simp: get_covid_time_series_def group_by_def g split: if_splits)
  have unfolded: "get_covid_time_series dataset =
      (if indexed = [] then Inl (ValueError ''Neither start nor end can be NaT'')
       else Inr \<lparr> ts_schema = tl (schema grouped),
        ts_rows = map (\<lambda>d. (d, case map_of indexed d of
                                  Some vs \<Rightarrow> vs
                                | None \<Rightarrow> replicate (length (tl (schema grouped))) NaN))
                    [Min (set (map fst indexed))..Max (set (map fst indexed))] \<rparr>)"
    unfolding get_covid_time_series_def group_by_def Let_def indexed_def g
    using mem typed [unfolded g] by simp
  have ne: "indexed \<noteq> []"
    using assms unfolding unfolded by (auto split: if_splits)
  have df: "df = \<lparr> ts_schema = tl (schema grouped),
        ts_rows = map (\<lambda>d. (d, case map_of indexed d of
                                  Some vs \<Rightarrow> vs
                                | None \<Rightarrow> replicate (length (tl (schema grouped))) NaN))
                    [Min (set (map fst indexed))..Max (set (map fst indexed))] \<rparr>"
    using assms ne unfolding unfolded by simp
  from ne obtain x where "x \<in> set (map fst indexed)"
    by (cases indexed) auto
  then have "Min (set (map fst indexed)) \<le> x" "x \<le> Max (set (map fst indexed))"
    by simp_all
  then have "Min (set (map fst indexed)) \<le> Max (set (map fst indexed))"
    by (rule order_trans)
  moreover have "map fst (ts_rows df) =
      [Min (set (map fst indexed))..Max (set (map fst indexed))]"
    by (simp add: df comp_def)
  ultimately show "\<exists>first last_day. first \<le> last_day \<and> map fst (ts_rows df) = [first..last_day]"
    by blast
  have len: "length vs = length (tl (schema grouped))" if "(d, vs) \<in> set indexed" for d vs
  proof -
    from in_map_filter [OF that [unfolded indexed_def]]
    obtain r where r: "r \<in> set (rows grouped)" and "r = Datetime d # vs"
      using indexed_row by blast
    moreover have "length r = length (schema grouped)"
      using rectangular_groupby_sum r unfolding g by (rule row_length)
    ultimately show ?thesis by auto
  qed
  show "length r = length (ts_schema df)" if "(d, r) \<in> set (ts_rows df)" for d r
  proof (cases "map_of indexed d")
    case None
    with that show ?thesis by (auto simp: df)
  next
    case (Some vs)
    then have "(d, vs) \<in> set indexed"
      by (rule map_of_SomeD)
    with that Some show ?thesis by (auto simp: df len)
  qed
qed

lemma map_of_labels:
  "map_of (map (\<lambda>i. (a + int i, v i)) [0..<n]) d =
     (if a \<le> d \<and> d < a + int n then Some (v (nat (d - a))) else None)"
proof (induction n)
  case 0
  then show ?case by simp
next
  case (Suc n)
  then show ?case
    by (auto simp: map_add_def nat_diff_distrib' split: option.splits if_splits)
qed

lemma row_labels_nth:
  "map (\<lambda>i. (map (\<lambda>i. a + 1 + int i) [0..<n] ! i, v i)) [0..<n] =
     map (\<lambda>i. (a + 1 + int i, v i)) [0..<n]"
  by (rule map_cong) simp_all

lemma get_prediction_Inr:
  assumes ts: "get_covid_time_series dataset = Inr df"
    and pred: "get_prediction arima dataset property from_date days = Inr result"
  shows "\<exists>fitted joined.
    property \<in> set (ts_columns df) \<and>
    arima (map (\<lambda>(d, r). (d, r ! index_of property (ts_columns df))) (ts_rows df)) = Inr fitted \<and>
    0 < days \<and>
    join_frames
      (concat_frames df
         \<lparr> ts_schema = [(''predicted_mean'', numeric)],
           ts_rows = map (\<lambda>i. (fst (last (ts_rows df)) + 1 + int i, [fst (fitted i)])) [0..<days] \<rparr>)
      \<lparr> ts_schema = [(''lower '' @ property, numeric), (''upper '' @ property, numeric)],
        ts_rows = map (\<lambda>i. (fst (last (ts_rows df)) + 1 + int i,
                             [fst (snd (fitted i)), snd (snd (fitted i))])) [0..<days] \<rparr> =
      Inr joined \<and>
    result = joined\<lparr> ts_rows := filter (\<lambda>(d, r). from_date \<le> d) (ts_rows joined) \<rparr>"
  using pred unfolding get_prediction_def ts Let_def row_labels_nth
  by (auto split: if_splits sum.splits)

lemma join_frames_Inr:
  assumes "join_frames a b = Inr joined"
  shows "ts_schema joined = ts_schema a @ ts_schema b"
    and "ts_rows joined =
      map (\<lambda>x. (fst x, snd x @ (case map_of (ts_rows b) (fst x) of
                                   Some v \<Rightarrow> v
                                 | None \<Rightarrow> replicate (length (ts_schema b)) NaN))) (ts_rows a)"
    and "\<not> list_ex (\<lambda>c. c \<in> set (ts_columns a)) (ts_columns b)"
  using assms by (auto simp: join_frames_def case_prod_unfold split: if_splits)

lemma series_built_example:
  "get_covid_time_series built_example =
    Inr \<lparr> ts_schema = [(''Total_reported'', numeric), (''Hospital_admission'', numeric)],
          ts_rows = [(18628, [Num 7, Num 1]), (18629, [NaN, NaN]), (18630, [Num 5, Num 2])] \<rparr>"
  by code_simp

subsection \<open>The forecast\<close>

text \<open>
  C7. When \<open>get_prediction\<close> returns, the rows of its result whose date is a date of
  the daily series are, on the columns of the daily series (the first columns of the
  result, the forecast metric among them at the same place), exactly the rows of the
  daily series from \<open>from_date\<close> on: the fit and the forecast change no historical
  value.
\<close>

theorem forecast_keeps_history:
  assumes ts: "get_covid_time_series dataset = Inr df"
    and pred: "get_prediction arima dataset property from_date days = Inr result"
  shows "take (length (ts_schema df)) (ts_schema result) = ts_schema df \<and>
    index_of property (ts_columns result) = index_of property (ts_columns df) \<and>
    map (\<lambda>(d, r). (d, take (length (ts_schema df)) r))
        (filter (\<lambda>(d, r). d \<in> fst ` set (ts_rows df)) (ts_rows result)) =
      filter (\<lambda>(d, r). from_date \<le> d) (ts_rows df)"
proof -
  let ?n = "length (ts_schema df)"
  from get_covid_time_series_Inr [OF ts] obtain first last_day
    where order: "first \<le> last_day" and dates: "map fst (ts_rows df) = [first..last_day]"
      and len: "\<And>d r. (d, r) \<in> set (ts_rows df) \<Longrightarrow> length r = ?n"
    by blast
  from dates order have ne: "ts_rows df \<noteq> []"
    by (auto simp: upto.simps [of first last_day])
  have "fst (last (ts_rows df)) = last (map fst (ts_rows df))"
    using ne by (simp add: last_map)
  then have last_day: "fst (last (ts_rows df)) = last_day"
    using order by (simp add: dates last_upto)
  have in_dates: "d \<in> fst ` set (ts_rows df) \<longleftrightarrow> first \<le> d \<and> d \<le> last_day" for d
    using arg_cong [OF dates, of set] by (simp only: set_map set_upto) auto
  from get_prediction_Inr [OF ts pred] obtain fitted joined
    where pmem: "property \<in> set (ts_columns df)"
      and joined: "join_frames
        (concat_frames df
           \<lparr> ts_schema = [(''predicted_mean'', numeric)],
             ts_rows = map (\<lambda>i. (last_day + 1 + int i, [fst (fitted i)])) [0..<days] \<rparr>)
        \<lparr> ts_schema = [(''lower '' @ property, numeric), (''upper '' @ property, numeric)],
          ts_rows = map (\<lambda>i. (last_day + 1 + int i,
                               [fst (snd (fitted i)), snd (snd (fitted i))])) [0..<days] \<rparr> =
        Inr joined"
      and result: "result = joined\<lparr> ts_rows := filter (\<lambda>(d, r). from_date \<le> d) (ts_rows joined) \<rparr>"
    unfolding last_day by blast
  define forecasts where "forecasts =
    \<lparr> ts_schema = [(''predicted_mean'', numeric)],
      ts_rows = map (\<lambda>i. (last_day + 1 + int i, [fst (fitted i)])) [0..<days] \<rparr>"
  define interval where "interval =
    \<lparr> ts_schema = [(''lower '' @ property, numeric), (''upper '' @ property, numeric)],
      ts_rows = map (\<lambda>i. (last_day + 1 + int i,
                           [fst (snd (fitted i)), snd (snd (fitted i))])) [0..<days] \<rparr>"
  define new where "new = filter (\<lambda>(c, t). c \<notin> set (ts_columns df)) (ts_schema forecasts)"
  define bounds where "bounds = (\<lambda>d. case map_of (ts_rows interval) d of
      Some v \<Rightarrow> v | None \<Rightarrow> replicate (length (ts_schema interval)) NaN)"
  note j = join_frames_Inr [OF joined [folded forecasts_def interval_def], folded bounds_def]
  have schema: "ts_schema result = ts_schema df @ new @ ts_schema interval"
    by (simp add: result j(1) concat_frames_def Let_def new_def)
  then have "take ?n (ts_schema result) = ts_schema df"
    by simp
  moreover have "index_of property (ts_columns result) = index_of property (ts_columns df)"
    using pmem unfolding ts_columns_def schema by (simp add: index_of_append)
  moreover have "map (\<lambda>(d, r). (d, take ?n r))
        (filter (\<lambda>(d, r). d \<in> fst ` set (ts_rows df)) (ts_rows result)) =
      filter (\<lambda>(d, r). from_date \<le> d) (ts_rows df)"
  proof -
    let ?hist = "\<lambda>x. fst x \<in> fst ` set (ts_rows df) \<and> from_date \<le> fst x"
    let ?wide = "\<lambda>x. (fst x, (snd x @ replicate (length new) NaN) @ bounds (fst x))"
    have later: "filter (\<lambda>x. ?hist (g x)) (ts_rows forecasts) = []"
      if "\<And>x. fst (g x) = fst x" for g :: "int \<times> cell list \<Rightarrow> int \<times> cell list"
      by (simp add: forecasts_def filter_map comp_def in_dates that)
    have "filter (\<lambda>(d, r). d \<in> fst ` set (ts_rows df)) (ts_rows result) =
        filter ?hist (ts_rows joined)"
      by (simp add: result case_prod_unfold conj_commute)
    also have "\<dots> = map ?wide (filter ?hist (ts_rows df))"
      unfolding j(2)
      by (simp add: concat_frames_def Let_def case_prod_unfold filter_map comp_def later
          new_def bounds_def)
    finally have "filter (\<lambda>(d, r). d \<in> fst ` set (ts_rows df)) (ts_rows result) =
        map ?wide (filter ?hist (ts_rows df))" .
    moreover have "filter ?hist (ts_rows df) = filter (\<lambda>(d, r). from_date \<le> d) (ts_rows df)"
      by (rule filter_cong) (auto simp: case_prod_unfold)
    moreover have "map (\<lambda>(d, r). (d, take ?n r)) (map ?wide xs) = xs"
      if "set xs \<subseteq> set (ts_rows df)" for xs
    proof -
      have "(fst x, take ?n ((snd x @ replicate (length new) NaN) @ bounds (fst x))) = x"
        if "x \<in> set xs" for x
        using len [of "fst x" "snd x"] that \<open>set xs \<subseteq> set (ts_rows df)\<close> by auto
      then show ?thesis
        by (simp add: comp_def case_prod_unfold map_idI)
    qed
    ultimately show ?thesis
      by simp
  qed
  ultimately show ?thesis
    by blast
qed

theorem forecast_keeps_history_witness:
  "get_covid_time_series built_example =
    Inr \<lparr> ts_schema = [(''Total_reported'', numeric), (''Hospital_admission'', numeric)],
          ts_rows = [(18628, [Num 7, Num 1]), (18629, [NaN, NaN]), (18630, [Num 5, Num 2])] \<rparr> \<and>
   get_prediction fitted_example built_example ''Total_reported'' 18629 2 =
    Inr \<lparr> ts_schema = [(''Total_reported'', numeric), (''Hospital_admission'', numeric),
            (''predicted_mean'', numeric), (''lower Total_reported'', numeric),
            (''upper Total_reported'', numeric)],
          ts_rows = [(18629, [NaN, NaN, NaN, NaN, NaN]), (18630, [Num 5, Num 2, NaN, NaN, NaN]),
            (18631, [NaN, NaN, Num 100, Num 90, Num 110]),
            (18632, [NaN, NaN, Num 110, Num 100, Num 120])] \<rparr> \<and>
   map (\<lambda>(d, r). (d, take 2 r))
     (filter (\<lambda>(d, r). d \<in> {18628, 18629, 18630})
        [(18629 :: int, [NaN, NaN, NaN, NaN, NaN]), (18630, [Num 5, Num 2, NaN, NaN, NaN]),
         (18631, [NaN, NaN, Num 100, Num 90, Num 110]),
         (18632, [NaN, NaN, Num 110, Num 100, Num 120])]) =
     [(18629, [NaN, NaN]), (18630, [Num 5, Num 2])]"
proof -
  have pred: "get_prediction fitted_example built_example ''Total_reported'' 18629 2 =
    Inr \<lparr> ts_schema = [(''Total_reported'', numeric), (''Hospital_admission'', numeric),
            (''predicted_mean'', numeric), (''lower Total_reported'', numeric),
            (''upper Total_reported'', numeric)],
          ts_rows = [(18629, [NaN, NaN, NaN, NaN, NaN]), (18630, [Num 5, Num 2, NaN, NaN, NaN]),
            (18631, [NaN, NaN, Num 100, Num 90, Num 110]),
            (18632, [NaN, NaN, Num 110, Num 100, Num 120])] \<rparr>"
    by code_simp
  from forecast_keeps_history [OF series_built_example pred]
  show ?thesis
    using series_built_example pred by simp
qed

text \<open>
  C8. When the daily series has the property as a column, the fit returns a model and
  no column of the series is called \<open>predicted_mean\<close>, \<open>lower\<close> or \<open>upper\<close> of the
  property, \<open>get_prediction\<close> with a positive number of days returns the rows of the
  daily series, whose dates are all the days from the first to the last, followed by one
  row for each of the days to forecast, dated with the days that follow the last; the
  forecast rows carry the predicted mean and the two bounds of their day in three
  further columns, which are missing on the historical rows; of these rows exactly
  those dated on or after \<open>from_date\<close> are returned.
\<close>

theorem prediction_is_history_then_forecast:
  assumes ts: "get_covid_time_series dataset = Inr df"
    and pmem: "property \<in> set (ts_columns df)"
    and fit: "arima (map (\<lambda>(d, r). (d, r ! index_of property (ts_columns df))) (ts_rows df)) =
      Inr fitted"
    and days: "0 < days"
    and fresh: "''predicted_mean'' \<notin> set (ts_columns df)"
      "''lower '' @ property \<notin> set (ts_columns df)"
      "''upper '' @ property \<notin> set (ts_columns df)"
  shows "\<exists>first last_day.
    first \<le> last_day \<and> map fst (ts_rows df) = [first..last_day] \<and>
    get_prediction arima dataset property from_date days =
      Inr \<lparr> ts_schema = ts_schema df @
               [(''predicted_mean'', numeric), (''lower '' @ property, numeric),
                (''upper '' @ property, numeric)],
             ts_rows = filter (\<lambda>(d, r). from_date \<le> d)
               (map (\<lambda>(d, r). (d, r @ [NaN, NaN, NaN])) (ts_rows df) @
                map (\<lambda>i. (last_day + 1 + int i,
                           replicate (length (ts_schema df)) NaN @
                           [fst (fitted i), fst (snd (fitted i)), snd (snd (fitted i))]))
                  [0..<days]) \<rparr>"
proof -
  from get_covid_time_series_Inr [OF ts] obtain first last_day
    where order: "first \<le> last_day" and dates: "map fst (ts_rows df) = [first..last_day]"
    by blast
  from dates order have ne: "ts_rows df \<noteq> []"
    by (auto simp: upto.simps [of first last_day])
  have "fst (last (ts_rows df)) = last (map fst (ts_rows df))"
    using ne by (simp add: last_map)
  then have last_day: "fst (last (ts_rows df)) = last_day"
    using order by (simp add: dates last_upto)
  have early: "fst x \<le> last_day" if "x \<in> set (ts_rows df)" for x
  proof -
    from that have "fst x \<in> set (map fst (ts_rows df))"
      by simp
    then show ?thesis
      unfolding dates by simp
  qed
  define forecasts where "forecasts =
    \<lparr> ts_schema = [(''predicted_mean'', numeric)],
      ts_rows = map (\<lambda>i. (last_day + 1 + int i, [fst (fitted i)])) [0..<days] \<rparr>"
  define interval where "interval =
    \<lparr> ts_schema = [(''lower '' @ property, numeric), (''upper '' @ property, numeric)],
      ts_rows = map (\<lambda>i. (last_day + 1 + int i,
                           [fst (snd (fitted i)), snd (snd (fitted i))])) [0..<days] \<rparr>"
  have blank: "map (\<lambda>x. if fst x = ''predicted_mean'' then g x else NaN) (ts_schema df) =
      replicate (length (ts_schema df)) NaN" for g :: "string \<times> dtype \<Rightarrow> cell"
  proof -
    have "map (\<lambda>x. if fst x = ''predicted_mean'' then g x else NaN) (ts_schema df) =
        map (\<lambda>x. NaN) (ts_schema df)"
      by (rule map_cong) (use fresh(1) in \<open>force simp: ts_columns_def\<close>)+
    then show ?thesis
      by (simp add: map_replicate_const)
  qed
  have stacked: "concat_frames df forecasts =
      \<lparr> ts_schema = ts_schema df @ [(''predicted_mean'', numeric)],
        ts_rows = map (\<lambda>x. (fst x, snd x @ [NaN])) (ts_rows df) @
                  map (\<lambda>i. (last_day + 1 + int i,
                             replicate (length (ts_schema df)) NaN @ [fst (fitted i)]))
                    [0..<days] \<rparr>"
    using fresh(1)
    by (simp add: concat_frames_def forecasts_def Let_def ts_columns_def case_prod_unfold
        comp_def blank)
  have lookup_hist: "map_of (ts_rows interval) (fst x) = None" if "x \<in> set (ts_rows df)" for x
    using early [OF that] map_of_labels [of "last_day + 1" _ days "fst x"]
    by (simp add: interval_def add.assoc)
  have lookup_fc: "map_of (ts_rows interval) (last_day + 1 + int i) =
      Some [fst (snd (fitted i)), snd (snd (fitted i))]" if "i < days" for i
    using that map_of_labels [of "last_day + 1" _ days "last_day + 1 + int i"]
    by (simp add: interval_def)
  have width: "replicate (length (ts_schema interval)) NaN = [NaN, NaN]"
    by (simp add: interval_def)
  have fc_rows: "map (\<lambda>i. (last_day + 1 + int i, (replicate (length (ts_schema df)) NaN @
          [fst (fitted i)]) @
          (case map_of (ts_rows interval) (last_day + 1 + int i) of
             Some v \<Rightarrow> v | None \<Rightarrow> replicate (length (ts_schema interval)) NaN))) [0..<days] =
      map (\<lambda>i. (last_day + 1 + int i, replicate (length (ts_schema df)) NaN @
          [fst (fitted i), fst (snd (fitted i)), snd (snd (fitted i))])) [0..<days]"
    by (rule map_cong) (simp_all add: lookup_fc)
  have hist_rows: "map (\<lambda>x. (fst x, (snd x @ [NaN]) @
          (case map_of (ts_rows interval) (fst x) of
             Some v \<Rightarrow> v | None \<Rightarrow> replicate (length (ts_schema interval)) NaN))) (ts_rows df) =
      map (\<lambda>(d, r). (d, r @ [NaN, NaN, NaN])) (ts_rows df)"
    by (rule map_cong) (simp_all add: lookup_hist case_prod_unfold width)
  have no_overlap: "\<not> list_ex (\<lambda>c. c \<in> set (ts_columns (concat_frames df forecasts)))
      (ts_columns interval)"
    using fresh(2,3) by (simp add: stacked interval_def ts_columns_def)
  have sch: "ts_schema (concat_frames df forecasts) @ ts_schema interval =
      ts_schema df @ [(''predicted_mean'', numeric), (''lower '' @ property, numeric),
        (''upper '' @ property, numeric)]"
    by (simp add: stacked interval_def)
  have rws: "map (\<lambda>x. (fst x, snd x @ (case map_of (ts_rows interval) (fst x) of
          Some v \<Rightarrow> v | None \<Rightarrow> replicate (length (ts_schema interval)) NaN)))
        (ts_rows (concat_frames df forecasts)) =
      map (\<lambda>(d, r). (d, r @ [NaN, NaN, NaN])) (ts_rows df) @
      map (\<lambda>i. (last_day + 1 + int i, replicate (length (ts_schema df)) NaN @
          [fst (fitted i), fst (snd (fitted i)), snd (snd (fitted i))])) [0..<days]"
    unfolding stacked using fc_rows hist_rows by (simp add: comp_def)
  have "join_frames (concat_frames df forecasts) interval =
      Inr \<lparr> ts_schema = ts_schema (concat_frames df forecasts) @ ts_schema interval,
             ts_rows = map (\<lambda>x. (fst x, snd x @ (case map_of (ts_rows interval) (fst x) of
                 Some v \<Rightarrow> v | None \<Rightarrow> replicate (length (ts_schema interval)) NaN)))
               (ts_rows (concat_frames df forecasts)) \<rparr>"
    using no_overlap by (simp add: join_frames_def case_prod_unfold)
  then have "join_frames (concat_frames df forecasts) interval =
      Inr \<lparr> ts_schema = ts_schema df @
               [(''predicted_mean'', numeric), (''lower '' @ property, numeric),
                (''upper '' @ property, numeric)],
             ts_rows = map (\<lambda>(d, r). (d, r @ [NaN, NaN, NaN])) (ts_rows df) @
                map (\<lambda>i. (last_day + 1 + int i,
                           replicate (length (ts_schema df)) NaN @
                           [fst (fitted i), fst (snd (fitted i)), snd (snd (fitted i))]))
                  [0..<days] \<rparr>"
    unfolding sch rws .
  then have "get_prediction arima dataset property from_date days =
      Inr \<lparr> ts_schema = ts_schema df @
               [(''predicted_mean'', numeric), (''lower '' @ property, numeric),
                (''upper '' @ property, numeric)],
             ts_rows = filter (\<lambda>(d, r). from_date \<le> d)
               (map (\<lambda>(d, r). (d, r @ [NaN, NaN, NaN])) (ts_rows df) @
                map (\<lambda>i. (last_day + 1 + int i,
                           replicate (length (ts_schema df)) NaN @
                           [fst (fitted i), fst (snd (fitted i)), snd (snd (fitted i))]))
                  [0..<days]) \<rparr>"
    unfolding get_prediction_def Let_def row_labels_nth
    using pmem fit days by (simp add: ts forecasts_def interval_def last_day)
  with order dates show ?thesis
    by blast
qed

theorem prediction_is_history_then_forecast_witness:
  "get_covid_time_series built_example =
    Inr \<lparr> ts_schema = [(''Total_reported'', numeric), (''Hospital_admission'', numeric)],
          ts_rows = [(18628, [Num 7, Num 1]), (18629, [NaN, NaN]), (18630, [Num 5, Num 2])] \<rparr> \<and>
   fitted_example [(18628, Num 7), (18629, NaN), (18630, Num 5)] =
    Inr (\<lambda>i. (Num (100 + 10 * int i), Num (90 + 10 * int i), Num (110 + 10 * int i))) \<and>
   get_prediction fitted_example built_example ''Total_reported'' 18630 2 =
    Inr \<lparr> ts_schema = [(''Total_reported'', numeric), (''Hospital_admission'', numeric),
            (''predicted_mean'', numeric), (''lower Total_reported'', numeric),
            (''upper Total_reported'', numeric)],
          ts_rows = [(18630, [Num 5, Num 2, NaN, NaN, NaN]),
            (18631, [NaN, NaN, Num 100, Num 90, Num 110]),
            (18632, [NaN, NaN, Num 110, Num 100, Num 120])] \<rparr>"
proof -
  let ?df = "\<lparr> ts_schema = [(''Total_reported'', numeric), (''Hospital_admission'', numeric)],
    ts_rows = [(18628, [Num 7, Num 1]), (18629, [NaN, NaN]), (18630, [Num 5, Num 2])] \<rparr>"
  let ?fitted = "\<lambda>i. (Num (100 + 10 * int i), Num (90 + 10 * int i), Num (110 + 10 * int i))"
  have pmem: "''Total_reported'' \<in> set (ts_columns ?df)"
    by (simp add: ts_columns_def)
  have fit: "fitted_example (map (\<lambda>(d, r). (d, r ! index_of ''Total_reported'' (ts_columns ?df)))
      (ts_rows ?df)) = Inr ?fitted"
    by (simp add: fitted_example_def)
  have days: "0 < (2 :: nat)"
    by simp
  have fresh: "''predicted_mean'' \<notin> set (ts_columns ?df)"
    "''lower '' @ ''Total_reported'' \<notin> set (ts_columns ?df)"
    "''upper '' @ ''Total_reported'' \<notin> set (ts_columns ?df)"
    by (simp_all add: ts_columns_def)
  from prediction_is_history_then_forecast [where arima = fitted_example
      and property = "''Total_reported''" and from_date = 18630 and fitted = ?fitted,
      OF series_built_example pmem fit days fresh]
  obtain first last_day where order: "first \<le> last_day"
    and dates: "[18628, 18629, 18630] = [first..last_day]"
    and pred: "get_prediction fitted_example built_example ''Total_reported'' 18630 2 =
      Inr \<lparr> ts_schema = ts_schema ?df @
               [(''predicted_mean'', numeric), (''lower '' @ ''Total_reported'', numeric),
                (''upper '' @ ''Total_reported'', numeric)],
             ts_rows = filter (\<lambda>(d, r). 18630 \<le> d)
               (map (\<lambda>(d, r). (d, r @ [NaN, NaN, NaN])) (ts_rows ?df) @
                map (\<lambda>i. (last_day + 1 + int i,
                           replicate (length (ts_schema ?df)) NaN @
                           [fst (?fitted i), fst (snd (?fitted i)), snd (snd (?fitted i))]))
                  [0..<2]) \<rparr>"
    by auto
  from arg_cong [OF dates, of last] order have "last_day = 18630"
    by (simp add: last_upto)
  with pred have "get_prediction fitted_example built_example ''Total_reported'' 18630 2 =
    Inr \<lparr> ts_schema = [(''Total_reported'', numeric), (''Hospital_admission'', numeric),
            (''predicted_mean'', numeric), (''lower Total_reported'', numeric),
            (''upper Total_reported'', numeric)],
          ts_rows = [(18630, [Num 5, Num 2, NaN, NaN, NaN]),
            (18631, [NaN, NaN, Num 100, Num 90, Num 110]),
            (18632, [NaN, NaN, Num 110, Num 100, Num 120])] \<rparr>"
    by (simp add: upt_rec eval_nat_numeral)
  with series_built_example show ?thesis
    by (simp add: fitted_example_def)
qed

subsection \<open>Regrouping a grouped frame\<close>

lemma sum_skipna_Num: "sum_skipna (map (\<lambda>x. Num (f x)) xs) = sum_list (map f xs)"
  by (simp add: sum_skipna_def comp_def)

lemma sum_one_key:
  "distinct ks \<Longrightarrow> a \<in> set ks \<Longrightarrow>
     sum_list (map (\<lambda>k. if a = k then (c :: int) else 0) (filter P ks)) = (if P a then c else 0)"
proof (induction ks)
  case Nil
  then show ?case by simp
next
  case (Cons k ks)
  show ?case
  proof (cases "a = k")
    case True
    with Cons.prems have "a \<notin> set ks"
      by simp
    then have "sum_list (map (\<lambda>k. if a = k then c else 0) (filter P ks)) = 0"
      by (induction ks) auto
    with True show ?thesis by simp
  next
    case False
    with Cons show ?thesis by simp
  qed
qed

lemma sum_by_groups:
  fixes v :: "'a \<Rightarrow> int"
  assumes "distinct ks" and "f ` set xs \<subseteq> set ks" and "\<And>x. x \<in> set xs \<Longrightarrow> p (f x) = g x"
  shows "sum_list (map (\<lambda>k. sum_list (map v (filter (\<lambda>x. f x = k) xs))) (filter (\<lambda>k. p k = k2) ks)) =
    sum_list (map v (filter (\<lambda>x. g x = k2) xs))"
  using assms(2,3)
proof (induction xs)
  case Nil
  then show ?case by simp
next
  case (Cons x xs)
  have mem: "f x \<in> set ks"
    using Cons.prems(1) by simp
  have "sum_list (map (\<lambda>k. sum_list (map v (filter (\<lambda>y. f y = k) (x # xs))))
        (filter (\<lambda>k. p k = k2) ks)) =
      sum_list (map (\<lambda>k. (if f x = k then v x else 0) +
          sum_list (map v (filter (\<lambda>y. f y = k) xs))) (filter (\<lambda>k. p k = k2) ks))"
    by (rule arg_cong [where f = sum_list], rule map_cong) auto
  also have "\<dots> = sum_list (map (\<lambda>k. if f x = k then v x else 0) (filter (\<lambda>k. p k = k2) ks)) +
      sum_list (map (\<lambda>k. sum_list (map v (filter (\<lambda>y. f y = k) xs))) (filter (\<lambda>k. p k = k2) ks))"
    by (simp add: sum_list_addf)
  also have "sum_list (map (\<lambda>k. if f x = k then v x else 0) (filter (\<lambda>k. p k = k2) ks)) =
      (if p (f x) = k2 then v x else 0)"
    using sum_one_key [OF assms(1) mem] .
  also have "sum_list (map (\<lambda>k. sum_list (map v (filter (\<lambda>y. f y = k) xs)))
        (filter (\<lambda>k. p k = k2) ks)) = sum_list (map v (filter (\<lambda>x. g x = k2) xs))"
    using Cons.prems by (intro Cons.IH) auto
  finally show ?case
    using Cons.prems(2) [of x] by simp
qed

lemma sort_remdups_cong: "set xs = set ys \<Longrightarrow> sort (remdups xs) = sort (remdups ys)"
  by (rule sorted_distinct_set_unique) simp_all

lemma rows_groupby_sum_parts:
  "rows (groupby_sum df by) =
     map (\<lambda>k. k @ map (\<lambda>c. Num (group_total df by c k)) (value_columns df by)) (group_keys df by)"
  by (simp add: groupby_sum_def Let_def group_keys_def group_total_def complete_rows_def comp_def)

lemma group_key_shape:
  assumes "k \<in> set (group_keys df by)"
  shows "length k = length by"
    and "\<exists>r \<in> set (complete_rows df by). k = key_of (map (col df) by) r"
  using assms by (auto simp: group_keys_def length_key_of)

lemma distinct_group_keys: "distinct (group_keys df by)"
  by (simp add: group_keys_def)

lemma series_groupby_sum_value_column:
  assumes "c \<in> set (value_columns df by)"
  shows "series (groupby_sum df by) c = map (\<lambda>k. Num (group_total df by c k)) (group_keys df by)"
proof -
  have "c \<notin> set by"
    using assms by (auto simp: value_columns_def)
  then have colc: "col (groupby_sum df by) c = length by + index_of c (value_columns df by)"
    by (simp add: col_def columns_groupby_sum index_of_append_right)
  have "(k @ map (\<lambda>c. Num (group_total df by c k)) (value_columns df by)) !
      (length by + index_of c (value_columns df by)) = Num (group_total df by c k)"
    if "k \<in> set (group_keys df by)" for k
    using group_key_shape(1) [OF that] index_of_less [OF assms] nth_index_of [OF assms]
    by (simp add: nth_append)
  then show ?thesis
    by (simp add: series_def rows_groupby_sum_parts colc)
qed

lemma series_groupby_sum_key_column:
  assumes "c \<in> set by"
  shows "series (groupby_sum df by) c = map (\<lambda>k. k ! index_of c by) (group_keys df by)"
proof -
  have colc: "col (groupby_sum df by) c = index_of c by"
    using assms by (simp add: col_def columns_groupby_sum index_of_append)
  have "(k @ more) ! index_of c by = k ! index_of c by"
    if "k \<in> set (group_keys df by)" for k more
    using group_key_shape(1) [OF that] index_of_less [OF assms] by (simp add: nth_append)
  then show ?thesis
    by (simp add: series_def rows_groupby_sum_parts colc)
qed

lemma set_key_of: "set (key_of (map (col df) cs) r) = (\<lambda>c. r ! col df c) ` set cs"
  by (auto simp: key_of_def)

lemma complete_rows_subset:
  assumes sub: "set S \<subseteq> set T"
    and complete: "\<forall>c \<in> set T - set S. NaN \<notin> set (series df c)"
  shows "complete_rows df S = complete_rows df T"
  unfolding complete_rows_def
proof (rule filter_cong [OF refl])
  fix r
  assume r: "r \<in> set (rows df)"
  have present: "r ! col df c \<noteq> NaN" if "c \<in> set T - set S" for c
    using complete that r by (force simp: series_def)
  have "NaN \<in> (\<lambda>c. r ! col df c) ` set S" if "NaN \<in> (\<lambda>c. r ! col df c) ` set T"
  proof -
    from that obtain c where c: "c \<in> set T" and null: "r ! col df c = NaN"
      by auto
    have "c \<in> set S"
    proof (rule ccontr)
      assume "c \<notin> set S"
      with c have "c \<in> set T - set S"
        by simp
      from present [OF this] null show False
        by simp
    qed
    with null show ?thesis
      by (metis imageI)
  qed
  moreover have "NaN \<in> (\<lambda>c. r ! col df c) ` set T" if "NaN \<in> (\<lambda>c. r ! col df c) ` set S"
    using that sub by blast
  ultimately show "(NaN \<notin> set (key_of (map (col df) S) r)) =
      (NaN \<notin> set (key_of (map (col df) T) r))"
    unfolding set_key_of by blast
qed

lemma key_of_projected:
  assumes "set S \<subseteq> set T"
  shows "map (\<lambda>c. key_of (map (col df) T) r ! index_of c T) S = key_of (map (col df) S) r"
proof -
  have "key_of (map (col df) T) r ! index_of c T = r ! col df c" if "c \<in> set S" for c
  proof -
    from that assms have c: "c \<in> set T"
      by auto
    show ?thesis
      using index_of_less [OF c] nth_index_of [OF c] by (simp add: key_of_def)
  qed
  then show ?thesis
    by (simp add: key_of_def)
qed

lemma group_total_sum:
  "group_total df by c k =
     sum_list (map (\<lambda>r. case r ! col df c of Num n \<Rightarrow> n | _ \<Rightarrow> 0)
       (filter (\<lambda>r. key_of (map (col df) by) r = k) (complete_rows df by)))"
  by (simp add: group_total_def sum_skipna_def comp_def)

lemma regrouped:
  assumes sub: "set S \<subseteq> set T"
    and complete: "\<forall>c \<in> set T - set S. NaN \<notin> set (series df c)"
  shows "group_keys (groupby_sum df T) S = group_keys df S"
    and "c \<in> set (value_columns df T) \<Longrightarrow> k2 \<in> set (group_keys df S) \<Longrightarrow>
      group_total (groupby_sum df T) S c k2 = group_total df S c k2"
proof -
  let ?g = "groupby_sum df T"
  let ?row = "\<lambda>k. k @ map (\<lambda>c. Num (group_total df T c k)) (value_columns df T)"
  let ?proj = "\<lambda>k. map (\<lambda>c. k ! index_of c T) S"
  note live = complete_rows_subset [OF sub complete]
  have key1: "key_of (map (col ?g) S) (?row k) = ?proj k" if "k \<in> set (group_keys df T)" for k
  proof -
    have "?row k ! col ?g c = k ! index_of c T" if "c \<in> set S" for c
    proof -
      from that sub have c: "c \<in> set T"
        by auto
      have "col ?g c = index_of c T"
        using c by (simp add: col_def columns_groupby_sum index_of_append)
      then show ?thesis
        using index_of_less [OF c] group_key_shape(1) [OF \<open>k \<in> set (group_keys df T)\<close>]
        by (simp add: nth_append)
    qed
    then show ?thesis
      by (simp add: key_of_def)
  qed
  have proj: "?proj k \<in> key_of (map (col df) S) ` set (complete_rows df S)"
    if "k \<in> set (group_keys df T)" for k
    using group_key_shape(2) [OF that] key_of_projected [OF sub, of df] by (auto simp: live)
  have all: "complete_rows ?g S = rows ?g"
  proof -
    have "NaN \<notin> set (key_of (map (col ?g) S) (?row k))" if "k \<in> set (group_keys df T)" for k
    proof -
      from proj [OF that] obtain x where "x \<in> set (complete_rows df S)"
        and "?proj k = key_of (map (col df) S) x"
        by blast
      then show ?thesis
        unfolding key1 [OF that] by (simp add: complete_rows_def)
    qed
    then show ?thesis
      by (simp add: complete_rows_def [of ?g] rows_groupby_sum_parts filter_map comp_def)
  qed
  have keys_g: "map (key_of (map (col ?g) S)) (rows ?g) = map ?proj (group_keys df T)"
    by (simp add: rows_groupby_sum_parts comp_def key1 cong: map_cong)
  have "set (map ?proj (group_keys df T)) = set (map (key_of (map (col df) S)) (complete_rows df S))"
  proof -
    have "?proj ` set (group_keys df T) =
        ?proj ` key_of (map (col df) T) ` set (complete_rows df T)"
      by (simp add: group_keys_def)
    also have "\<dots> = key_of (map (col df) S) ` set (complete_rows df S)"
      using key_of_projected [OF sub, of df] by (simp add: image_image live)
    finally show ?thesis
      by simp
  qed
  then show "group_keys ?g S = group_keys df S"
    unfolding group_keys_def [of ?g] group_keys_def [of df S] all keys_g
    by (rule sort_remdups_cong)
  assume c: "c \<in> set (value_columns df T)" and k2: "k2 \<in> set (group_keys df S)"
  have "c \<notin> set T"
    using c by (auto simp: value_columns_def)
  then have colc: "col ?g c = length T + index_of c (value_columns df T)"
    by (simp add: col_def columns_groupby_sum index_of_append_right)
  have cell: "?row k ! col ?g c = Num (group_total df T c k)" if "k \<in> set (group_keys df T)" for k
    using group_key_shape(1) [OF that] index_of_less [OF c] nth_index_of [OF c]
    by (simp add: colc nth_append)
  have "group_total ?g S c k2 =
      sum_skipna (map (\<lambda>r. r ! col ?g c)
        (map ?row (filter (\<lambda>k. ?proj k = k2) (group_keys df T))))"
    unfolding group_total_def [of ?g] all rows_groupby_sum_parts filter_map comp_def
    by (rule arg_cong [where f = sum_skipna], rule arg_cong [where f = "map _"],
        rule arg_cong [where f = "map _"], rule filter_cong) (simp_all add: key1)
  also have "\<dots> = sum_skipna (map (\<lambda>k. Num (group_total df T c k))
      (filter (\<lambda>k. ?proj k = k2) (group_keys df T)))"
    by (rule arg_cong [where f = sum_skipna]) (simp add: comp_def cell cong: map_cong)
  also have "\<dots> = sum_list (map (\<lambda>k. group_total df T c k)
      (filter (\<lambda>k. ?proj k = k2) (group_keys df T)))"
    by (rule sum_skipna_Num)
  also have "\<dots> = sum_list (map (\<lambda>r. case r ! col df c of Num n \<Rightarrow> n | _ \<Rightarrow> 0)
      (filter (\<lambda>r. key_of (map (col df) S) r = k2) (complete_rows df T)))"
    unfolding group_total_sum
  proof (rule sum_by_groups)
    show "distinct (group_keys df T)"
      by (rule distinct_group_keys)
    show "key_of (map (col df) T) ` set (complete_rows df T) \<subseteq> set (group_keys df T)"
      by (simp add: group_keys_def)
    show "?proj (key_of (map (col df) T) r) = key_of (map (col df) S) r" for r
      by (rule key_of_projected [OF sub])
  qed
  finally show "group_total ?g S c k2 = group_total df S c k2"
    by (simp add: group_total_sum live)
qed

lemma value_columns_regrouped:
  assumes "c \<in> set (value_columns df T)" and "set S \<subseteq> set T"
  shows "c \<in> set (value_columns (groupby_sum df T) S)" and "c \<in> set (value_columns df S)"
proof -
  from assms(1) have out: "c \<notin> set T" and num: "(c, numeric) \<in> set (schema df)"
    by (auto simp: value_columns_def)
  from out assms(2) have "c \<notin> set S"
    by auto
  with num show "c \<in> set (value_columns df S)"
    by (force simp: value_columns_def)
  have "(c, numeric) \<in> set (schema (groupby_sum df T))"
    using assms(1) by (simp add: groupby_sum_def Let_def)
  with \<open>c \<notin> set S\<close> show "c \<in> set (value_columns (groupby_sum df T) S)"
    by (force simp: value_columns_def)
qed

text \<open>
  C6 (as amended). Let \<open>S\<close> be a subset of the grouping columns \<open>T\<close>, all of them
  columns of the frame, and let no cell of a column of \<open>T\<close> outside \<open>S\<close> be missing.
  Then \<open>group_by\<close> by \<open>T\<close>, the regrouping of its result by \<open>S\<close>, and \<open>group_by\<close> by
  \<open>S\<close> of the frame itself all succeed, and the last two have the same number of rows
  and the same series in every column of \<open>S\<close> and in every numeric column outside \<open>T\<close>:
  the same groups with the same totals.
\<close>

theorem regrouping_gives_same_totals:
  assumes sub: "set S \<subseteq> set T" and cols: "set T \<subseteq> set (columns df)"
    and complete: "\<forall>c \<in> set T - set S. NaN \<notin> set (series df c)"
  shows "\<exists>g1 g2 g3.
    group_by df T = Inr g1 \<and> group_by g1 S = Inr g2 \<and> group_by df S = Inr g3 \<and>
    length (rows g2) = length (rows g3) \<and>
    (\<forall>c \<in> set S \<union> set (value_columns df T). series g2 c = series g3 c)"
proof -
  let ?g1 = "groupby_sum df T"
  let ?g2 = "groupby_sum ?g1 S" and ?g3 = "groupby_sum df S"
  note keys = regrouped(1) [OF sub complete]
  have "group_by df T = Inr ?g1"
    using cols by (simp add: group_by_def)
  moreover have "group_by ?g1 S = Inr ?g2"
    using sub by (auto simp: group_by_def columns_groupby_sum)
  moreover have "group_by df S = Inr ?g3"
    using sub cols by (auto simp: group_by_def)
  moreover have "length (rows ?g2) = length (rows ?g3)"
    by (simp add: rows_groupby_sum_parts keys)
  moreover have "series ?g2 c = series ?g3 c" if "c \<in> set S" for c
    by (simp add: series_groupby_sum_key_column [OF that] keys)
  moreover have "series ?g2 c = series ?g3 c" if c: "c \<in> set (value_columns df T)" for c
  proof -
    note v = value_columns_regrouped [OF c sub]
    have "map (\<lambda>k. Num (group_total ?g1 S c k)) (group_keys df S) =
        map (\<lambda>k. Num (group_total df S c k)) (group_keys df S)"
      by (rule map_cong) (simp_all add: regrouped(2) [OF sub complete c])
    then show ?thesis
      by (simp add: series_groupby_sum_value_column [OF v(1)]
          series_groupby_sum_value_column [OF v(2)] keys)
  qed
  ultimately show ?thesis
    by blast
qed

text \<open>
  The amended C6 on \<open>totals_example\<close>, grouped by province and municipality and then by
  province: both ways give Limburg 2 and Utrecht 16.
\<close>

theorem regrouping_gives_same_totals_witness:
  "set [''Province''] \<subseteq> set [''Province'', ''Municipality_name''] \<and>
   set [''Province'', ''Municipality_name''] \<subseteq> set (columns totals_example) \<and>
   NaN \<notin> set (series totals_example ''Municipality_name'') \<and>
   value_columns totals_example [''Province'', ''Municipality_name''] = [''Total_reported''] \<and>
   (\<exists>g1 g2 g3.
      group_by totals_example [''Province'', ''Municipality_name''] = Inr g1 \<and>
      rows g1 = [[Str ''Limburg'', Str ''Bergen'', Num 2],
                 [Str ''Utrecht'', Str ''Utrecht city'', Num 11],
                 [Str ''Utrecht'', Str ''Zeist'', Num 5]] \<and>
      group_by g1 [''Province''] = Inr g2 \<and>
      group_by totals_example [''Province''] = Inr g3 \<and>
      rows g3 = [[Str ''Limburg'', Num 2], [Str ''Utrecht'', Num 16]] \<and>
      series g2 ''Province'' = series g3 ''Province'' \<and>
      series g2 ''Total_reported'' = series g3 ''Total_reported'')"
proof -
  let ?S = "[''Province'']" and ?T = "[''Province'', ''Municipality_name'']"
  have sub: "set ?S \<subseteq> set ?T"
    by simp
  have cols: "set ?T \<subseteq> set (columns totals_example)"
    by (simp add: totals_example_def columns_def)
  have named: "NaN \<notin> set (series totals_example ''Municipality_name'')"
    by (simp add: totals_example_def series_def col_def columns_def)
  then have complete: "\<forall>c \<in> set ?T - set ?S. NaN \<notin> set (series totals_example c)"
    by simp
  have vals: "value_columns totals_example ?T = [''Total_reported'']"
    by (simp add: totals_example_def value_columns_def)
  have e1: "group_by totals_example ?T =
      Inr \<lparr> schema = [(''Province'', object), (''Municipality_name'', object),
                (''Total_reported'', numeric)],
             rows = [[Str ''Limburg'', Str ''Bergen'', Num 2],
                     [Str ''Utrecht'', Str ''Utrecht city'', Num 11],
                     [Str ''Utrecht'', Str ''Zeist'', Num 5]] \<rparr>"
    by code_simp
  have e3: "group_by totals_example ?S =
      Inr \<lparr> schema = [(''Province'', object), (''Total_reported'', numeric)],
             rows = [[Str ''Limburg'', Num 2], [Str ''Utrecht'', Num 16]] \<rparr>"
    by code_simp
  from regrouping_gives_same_totals [OF sub cols complete]
  obtain g1 g2 g3 where g: "group_by totals_example ?T = Inr g1" "group_by g1 ?S = Inr g2"
      "group_by totals_example ?S = Inr g3"
    and same: "\<forall>c \<in> set ?S \<union> set (value_columns totals_example ?T). series g2 c = series g3 c"
    by blast
  from same have "series g2 ''Province'' = series g3 ''Province''"
    and "series g2 ''Total_reported'' = series g3 ''Total_reported''"
    by (simp_all add: vals)
  moreover from g(1) e1 have "rows g1 = [[Str ''Limburg'', Str ''Bergen'', Num 2],
      [Str ''Utrecht'', Str ''Utrecht city'', Num 11], [Str ''Utrecht'', Str ''Zeist'', Num 5]]"
    by auto
  moreover from g(3) e3 have "rows g3 = [[Str ''Limburg'', Num 2], [Str ''Utrecht'', Num 16]]"
    by auto
  ultimately have "\<exists>g1 g2 g3.
      group_by totals_example ?T = Inr g1 \<and>
      rows g1 = [[Str ''Limburg'', Str ''Bergen'', Num 2],
                 [Str ''Utrecht'', Str ''Utrecht city'', Num 11],
                 [Str ''Utrecht'', Str ''Zeist'', Num 5]] \<and>
      group_by g1 ?S = Inr g2 \<and>
      group_by totals_example ?S = Inr g3 \<and>
      rows g3 = [[Str ''Limburg'', Num 2], [Str ''Utrecht'', Num 16]] \<and>
      series g2 ''Province'' = series g3 ''Province'' \<and>
      series g2 ''Total_reported'' = series g3 ''Total_reported''"
    using g by (intro exI [of _ g1] exI [of _ g2] exI [of _ g3] conjI)
  with sub cols named vals show ?thesis
    by (intro conjI)
qed

text \<open>
  C6 as stated does not hold: in \<open>missing_key_example\<close> one row of Utrecht has no
  municipality name. Grouping by province and municipality drops it, as pandas drops the
  rows whose key has a missing value, so regrouping by province totals 10 for Utrecht,
  while grouping the frame by province totals 15.
\<close>

theorem regrouping_loses_rows_with_missing_key:
  "group_by missing_key_example [''Province'', ''Municipality_name''] =
     Inr \<lparr> schema = [(''Province'', object), (''Municipality_name'', object),
               (''Total_reported'', numeric)],
            rows = [[Str ''Utrecht'', Str ''Utrecht city'', Num 10]] \<rparr> \<and>
   group_by \<lparr> schema = [(''Province'', object), (''Municipality_name'', object),
               (''Total_reported'', numeric)],
            rows = [[Str ''Utrecht'', Str ''Utrecht city'', Num 10]] \<rparr> [''Province''] =
     Inr \<lparr> schema = [(''Province'', object), (''Total_reported'', numeric)],
            rows = [[Str ''Utrecht'', Num 10]] \<rparr> \<and>
   group_by missing_key_example [''Province''] =
     Inr \<lparr> schema = [(''Province'', object), (''Total_reported'', numeric)],
            rows = [[Str ''Utrecht'', Num 15]] \<rparr>"
  by code_simp

end
